theory Spec2Isabelle
  imports Complex_Main "HOL-Library.Multiset" "HOL-Library.Log_Nat"
begin

section \<open>JavaScript numbers\<close>

text \<open>
  Amounts, balances and thresholds are JavaScript Numbers, that is IEEE 754 doubles: the
  finite doubles (rationals \<open>m * 2 ^ k\<close> with \<open>\<bar>m\<bar> < 2 ^ 53\<close>), the two infinities and
  \<^verbatim>\<open>NaN\<close>. Positive and negative zero are one value here; no operation used below
  tells them apart.
\<close>

datatype number = NaN | Num rat | PosInfinity | NegInfinity

text \<open>
  An arithmetic operation computes the exact result and rounds it to the nearest double,
  a tie to the even significand. A value with binary exponent \<open>e\<close> (\<open>2 ^ e \<le> \<bar>x\<bar> < 2 ^ (e + 1)\<close>)
  is rounded to a multiple of \<open>2 ^ (max e (-1022) - 52)\<close>; a result of magnitude
  \<open>2 ^ 1024\<close> is an infinity.
\<close>

definition pow2 :: "int \<Rightarrow> rat" where
  "pow2 k = (if 0 \<le> k then 2 ^ nat k else 1 / 2 ^ nat (- k))"

definition binaryExponent :: "rat \<Rightarrow> int" where
  "binaryExponent x =
     (if 1 \<le> \<bar>x\<bar> then bitlen \<lfloor>\<bar>x\<bar>\<rfloor> - 1 else - bitlen (\<lceil>1 / \<bar>x\<bar>\<rceil> - 1))"

definition roundHalfEven :: "rat \<Rightarrow> int" where
  "roundHalfEven m =
     (let f = \<lfloor>m\<rfloor>
      in if m - of_int f < 1 / 2 then f
         else if 1 / 2 < m - of_int f then f + 1
         else if even f then f else f + 1)"

definition round64 :: "rat \<Rightarrow> number" where
  "round64 x =
     (if x = 0 then Num 0
      else
       (let k = max (binaryExponent x) (- 1022) - 52;
            y = of_int (roundHalfEven (x / pow2 k)) * pow2 k
        in if 2 ^ 1024 \<le> y then PosInfinity
           else if y \<le> - (2 ^ 1024) then NegInfinity
           else Num y))"

text \<open>\<^verbatim>\<open>a - b\<close>.\<close>

fun js_sub :: "number \<Rightarrow> number \<Rightarrow> number" where
  "js_sub (Num x) (Num y) = round64 (x - y)"
| "js_sub NaN b = NaN"
| "js_sub a NaN = NaN"
| "js_sub PosInfinity PosInfinity = NaN"
| "js_sub NegInfinity NegInfinity = NaN"
| "js_sub PosInfinity b = PosInfinity"
| "js_sub NegInfinity b = NegInfinity"
| "js_sub a PosInfinity = NegInfinity"
| "js_sub a NegInfinity = PosInfinity"

text \<open>\<^verbatim>\<open>a < b\<close> and \<^verbatim>\<open>a >= b\<close>: both are false when an operand is \<^verbatim>\<open>NaN\<close>.\<close>

fun js_lt :: "number \<Rightarrow> number \<Rightarrow> bool" where
  "js_lt (Num x) (Num y) = (x < y)"
| "js_lt NaN b = False"
| "js_lt a NaN = False"
| "js_lt a NegInfinity = False"
| "js_lt NegInfinity b = True"
| "js_lt PosInfinity b = False"
| "js_lt a PosInfinity = True"

definition js_ge :: "number \<Rightarrow> number \<Rightarrow> bool" where
  "js_ge a b \<longleftrightarrow> a \<noteq> NaN \<and> b \<noteq> NaN \<and> \<not> js_lt a b"

text \<open>\<^verbatim>\<open>Math.max(a, b)\<close>, \<^verbatim>\<open>Math.ceil(a)\<close> and \<^verbatim>\<open>a / 2\<close>.\<close>

definition js_max :: "number \<Rightarrow> number \<Rightarrow> number" where
  "js_max a b = (if a = NaN \<or> b = NaN then NaN else if js_lt a b then b else a)"

definition js_ceil :: "number \<Rightarrow> number" where
  "js_ceil a = (case a of Num x \<Rightarrow> Num (of_int \<lceil>x\<rceil>) | _ \<Rightarrow> a)"

definition js_half :: "number \<Rightarrow> number" where
  "js_half a = (case a of Num x \<Rightarrow> round64 (x / 2) | _ \<Rightarrow> a)"

text \<open>
  A counter of ledger rows as a Number: the rows in memory are far fewer than \<open>2 ^ 53\<close>,
  so the counter is held exactly.
\<close>

definition ofCount :: "int \<Rightarrow> number" where
  "ofCount n = Num (of_int n)"

text \<open>
  \<^verbatim>\<open>parseInt(text)\<close>: the argument is the integer that the text starts with, \<open>None\<close> when it
  starts with none (or the variable is unset); the result is the double nearest to that
  integer, or \<^verbatim>\<open>NaN\<close>.
\<close>

definition parseInt :: "int option \<Rightarrow> number" where
  "parseInt v = (case v of None \<Rightarrow> NaN | Some n \<Rightarrow> round64 (of_int n))"

text \<open>The integers of magnitude up to \<open>2 ^ 53\<close> are doubles: \<^verbatim>\<open>parseInt\<close> returns them as they are.\<close>

definition exactInteger :: "int option \<Rightarrow> bool" where
  "exactInteger v = (case v of None \<Rightarrow> True | Some n \<Rightarrow> \<bar>n\<bar> \<le> 2 ^ 53)"

section \<open>Data model\<close>

text \<open>
  The payment back end keeps three in-memory collections: the payment requests and the
  payment attempts of \<^verbatim>\<open>PaymentService\<close> (\<^verbatim>\<open>database.get('paymentRequests')\<close>,
  \<^verbatim>\<open>database.get('payments')\<close>) and the accounts of \<^verbatim>\<open>AccountService\<close>.
  Time stamps are produced by \<^verbatim>\<open>new Date().toISOString()\<close> and compared as strings; that
  fixed-width format orders like the instant it denotes, so a time stamp is the number of
  milliseconds. Amounts and balances are Numbers, in euros. Status values stay strings,
  as in the source, which validates them at run time against a list of literals.
\<close>

type_synonym timestamp = nat

text \<open>
  The diagnostic texts built by template literals (\<^verbatim>\<open>`Request expired at ${...}`\<close> and the
  like) are kept as the template with the interpolated values.
\<close>

datatype details =
    RequestExpiredAt timestamp
  | CurrentStatusExpectedProcessing string
  | CredentialNameLast4 string string
  | PinVerificationFailed
  | AvailableRequired number number

text \<open>Values that \<^verbatim>\<open>Object.assign(paymentRequest, additionalData)\<close> attaches to a request.\<close>

datatype jsvalue =
    JStr string
  | JTime timestamp
  | JText details

record paymentRequest =
  req_id :: string
  req_amount :: number
  req_description :: string
  req_merchantId :: string
  req_status :: string
  req_createdAt :: timestamp
  req_updatedAt :: timestamp
  req_expiresAt :: timestamp
  req_extra :: "(string \<times> jsvalue) list"

record attempt =
  att_id :: string
  att_paymentRequestId :: string
  att_status :: string
  att_amount :: number
  att_merchantId :: "string option"
  att_description :: string
  att_timestamp :: timestamp
  att_accountId :: "string option"
  att_cardholderName :: "string option"
  att_accountEmail :: "string option"
  att_transactionId :: "timestamp option"
  att_previousBalance :: "number option"
  att_newBalance :: "number option"
  att_errorReason :: "string option"
  att_errorDetails :: "details option"
  att_attemptNumber :: "number option"
  att_clientIp :: "string option"
  att_userAgent :: "string option"

record account =
  acc_id :: string
  acc_email :: string
  acc_pin :: string
  acc_pan :: string
  acc_cardholderName :: string
  acc_balance :: number
  acc_credentialId :: "string option"
  acc_lastBalanceUpdate :: "(number \<times> number \<times> string \<times> timestamp) option"

text \<open>
  Calls to the collaborators that the payment controller makes on the PIN-failure path,
  in the order in which they are made. \<open>RevokeFailureLogged\<close> is the
  \<^verbatim>\<open>console.error('Failed to revoke credential')\<close> of the controller.
\<close>

datatype sendResult = Sent | NotConfigured | SendFailed

datatype effect =
    SecurityAlert string string int sendResult
  | RevokeCredential string bool
  | CredentialRevokedEmail string sendResult
  | RevokeFailureLogged string

record state =
  paymentRequests :: "paymentRequest list"
  payments :: "attempt list"
  accounts :: "account list"
  outbox :: "effect list"

section \<open>JavaScript idioms\<close>

text \<open>\<^verbatim>\<open>!x\<close> for a string that may be absent: undefined, null and the empty string are falsy.\<close>

definition falsy :: "string option \<Rightarrow> bool" where
  "falsy x = (case x of None \<Rightarrow> True | Some v \<Rightarrow> v = [])"

text \<open>
  \<^verbatim>\<open>x || null\<close> on strings and on Numbers, and \<^verbatim>\<open>x || d\<close> on Numbers: 0 and \<^verbatim>\<open>NaN\<close> are
  the falsy Numbers.
\<close>

definition or_null :: "string option \<Rightarrow> string option" where
  "or_null x = (if falsy x then None else x)"

definition num_falsy :: "number \<Rightarrow> bool" where
  "num_falsy n \<longleftrightarrow> n = NaN \<or> n = Num 0"

definition num_or_null :: "number option \<Rightarrow> number option" where
  "num_or_null x = (case x of None \<Rightarrow> None | Some n \<Rightarrow> if num_falsy n then None else Some n)"

definition or_default :: "number \<Rightarrow> number \<Rightarrow> number" where
  "or_default p d = (if num_falsy p then d else p)"

text \<open>\<^verbatim>\<open>Array.prototype.find\<close> and \<^verbatim>\<open>findIndex\<close>: the first element that satisfies the test.\<close>

fun findIndex :: "('a \<Rightarrow> bool) \<Rightarrow> 'a list \<Rightarrow> nat option" where
  "findIndex P [] = None"
| "findIndex P (x # xs) =
     (if P x then Some 0 else (case findIndex P xs of None \<Rightarrow> None | Some i \<Rightarrow> Some (Suc i)))"

section \<open>SecurityConfig\<close>

record securityConfig =
  maxPinFailuresBeforeRevoke :: number
  maxPinFailuresBeforeAlert :: number

datatype warning = RevokeBelowOne | AlertBelowOne | AlertNotBelowRevoke

text \<open>\<^verbatim>\<open>validateConfiguration\<close>, with the warnings it prints.\<close>

definition validateConfiguration :: "securityConfig \<Rightarrow> securityConfig \<times> warning list" where
  "validateConfiguration c0 =
    (let (c1, w1) = (if js_lt (maxPinFailuresBeforeRevoke c0) (Num 1)
                     then (c0\<lparr>maxPinFailuresBeforeRevoke := Num 5\<rparr>, [RevokeBelowOne])
                     else (c0, []));
         (c2, w2) = (if js_lt (maxPinFailuresBeforeAlert c1) (Num 1)
                     then (c1\<lparr>maxPinFailuresBeforeAlert := Num 2\<rparr>, w1 @ [AlertBelowOne])
                     else (c1, w1))
     in if js_ge (maxPinFailuresBeforeAlert c2) (maxPinFailuresBeforeRevoke c2)
        then (c2\<lparr>maxPinFailuresBeforeAlert :=
                    js_max (Num 1) (js_sub (maxPinFailuresBeforeRevoke c2) (Num 1))\<rparr>,
              w2 @ [AlertNotBelowRevoke])
        else (c2, w2))"

text \<open>
  The constructor: \<^verbatim>\<open>parseInt(process.env.X) || d\<close> for both thresholds, then validation.
  The arguments are the integers that the two environment variables hold, if any.
\<close>

definition newSecurityConfig :: "int option \<Rightarrow> int option \<Rightarrow> securityConfig \<times> warning list" where
  "newSecurityConfig envRevoke envAlert =
     validateConfiguration
       \<lparr>maxPinFailuresBeforeRevoke = or_default (parseInt envRevoke) (Num 5),
        maxPinFailuresBeforeAlert = or_default (parseInt envAlert) (Num 2)\<rparr>"

definition getAlertThreshold :: "securityConfig \<Rightarrow> number" where
  "getAlertThreshold c = maxPinFailuresBeforeAlert c"

definition getRevokeThreshold :: "securityConfig \<Rightarrow> number" where
  "getRevokeThreshold c = maxPinFailuresBeforeRevoke c"

definition shouldTriggerAlert :: "securityConfig \<Rightarrow> int \<Rightarrow> bool" where
  "shouldTriggerAlert c consecutiveFailures \<longleftrightarrow>
     js_ge (ofCount consecutiveFailures) (maxPinFailuresBeforeAlert c)"

definition shouldTriggerRevocation :: "securityConfig \<Rightarrow> int \<Rightarrow> bool" where
  "shouldTriggerRevocation c consecutiveFailures \<longleftrightarrow>
     js_ge (ofCount consecutiveFailures) (maxPinFailuresBeforeRevoke c)"

definition getRiskLevel :: "securityConfig \<Rightarrow> int \<Rightarrow> string" where
  "getRiskLevel c consecutiveFailures =
    (if js_ge (ofCount consecutiveFailures) (maxPinFailuresBeforeRevoke c) then ''CRITICAL''
     else if js_ge (ofCount consecutiveFailures) (maxPinFailuresBeforeAlert c) then ''HIGH''
     else if js_ge (ofCount consecutiveFailures) (js_ceil (js_half (maxPinFailuresBeforeAlert c)))
     then ''MEDIUM''
     else ''LOW'')"

section \<open>PaymentService: the attempt ledger\<close>

definition getAllPayments :: "state \<Rightarrow> attempt list" where
  "getAllPayments s = payments s"

definition getPaymentsByAccountId :: "state \<Rightarrow> string \<Rightarrow> attempt list" where
  "getPaymentsByAccountId s accountId =
     filter (\<lambda>payment. att_accountId payment = Some accountId) (getAllPayments s)"

text \<open>
  \<^verbatim>\<open>.sort((a, b) => new Date(b.timestamp) - new Date(a.timestamp))\<close>: the sort of
  \<^verbatim>\<open>Array.prototype.sort\<close> is stable, so rows with equal time stamps keep the order in
  which the ledger holds them. A stable sort by descending time stamp is the stable
  insertion sort on the negated time stamp.
\<close>

definition mostRecentFirst :: "attempt list \<Rightarrow> attempt list" where
  "mostRecentFirst ps = sort_key (\<lambda>p. - int (att_timestamp p)) ps"

text \<open>The \<^verbatim>\<open>for\<close> loop of \<^verbatim>\<open>getConsecutivePinFailures\<close>, with its counter.\<close>

fun countPinFailures :: "attempt list \<Rightarrow> int \<Rightarrow> int" where
  "countPinFailures [] consecutiveFailures = consecutiveFailures"
| "countPinFailures (payment # rest) consecutiveFailures =
     (if att_status payment = ''failed_pin'' then countPinFailures rest (consecutiveFailures + 1)
      else if att_status payment = ''completed'' then consecutiveFailures
      else countPinFailures rest consecutiveFailures)"

definition getConsecutivePinFailures :: "state \<Rightarrow> string \<Rightarrow> int" where
  "getConsecutivePinFailures s accountId =
     countPinFailures (mostRecentFirst (getPaymentsByAccountId s accountId)) 0"

text \<open>
  \<^verbatim>\<open>getSecurityStatistics\<close>: the counts and the risk level that the payment service
  reports for an account.
\<close>

record securityStatistics =
  stat_accountId :: string
  stat_totalAttempts :: nat
  stat_successfulPayments :: nat
  stat_pinFailures :: nat
  stat_consecutivePinFailures :: int
  stat_lastAttempt :: "attempt option"
  stat_riskLevel :: string

definition getSecurityStatistics :: "state \<Rightarrow> string \<Rightarrow> securityStatistics" where
  "getSecurityStatistics s accountId =
    (let accountPayments = getPaymentsByAccountId s accountId;
         consecutiveFailures = getConsecutivePinFailures s accountId
     in \<lparr>stat_accountId = accountId,
         stat_totalAttempts = length accountPayments,
         stat_successfulPayments = length (filter (\<lambda>p. att_status p = ''completed'') accountPayments),
         stat_pinFailures = length (filter (\<lambda>p. att_status p = ''failed_pin'') accountPayments),
         stat_consecutivePinFailures = consecutiveFailures,
         stat_lastAttempt = (case mostRecentFirst accountPayments of [] \<Rightarrow> None | p # _ \<Rightarrow> Some p),
         stat_riskLevel = (if consecutiveFailures \<ge> 4 then ''HIGH''
                           else if consecutiveFailures \<ge> 2 then ''MEDIUM'' else ''LOW'')\<rparr>)"

section \<open>The environment of one request\<close>

text \<open>
  Everything a handler reads from outside the three collections: the clock, the
  identifier generator, the Procivis verifier, the mail transport, and whether each
  \<^verbatim>\<open>saveDataToFile\<close> succeeds. Within one handler call every write site is reached at
  most once, so the outcome of a write is indexed by its site. A failed write rethrows
  the error of \<^verbatim>\<open>fs.writeFile\<close>; its message, which the file system chooses, is
  written \<open>''Error saving payments data''\<close> and \<open>''Error saving accounts data''\<close> here.
\<close>

datatype saveSite = SaveRequests | SaveAttempts | SaveAccounts

record proofDetails =
  proof_state :: string
  proofInputs :: "(string \<times> string) list list"

record env =
  now :: timestamp
  newId :: string
  procivisConfigured :: bool
  proofRequestStatus :: "string + string"
  proofRequestDetails :: "string + proofDetails"
  revokeSucceeds :: bool
  emailConfigured :: bool
  alertEmailSucceeds :: bool
  revokedEmailSucceeds :: bool
  saveSucceeds :: "saveSite \<Rightarrow> bool"
  clientIp :: "string option"
  userAgent :: "string option"

section \<open>PaymentService: requests\<close>

definition getAllPaymentRequests :: "state \<Rightarrow> paymentRequest list" where
  "getAllPaymentRequests s = paymentRequests s"

definition getPaymentRequestById :: "state \<Rightarrow> string \<Rightarrow> paymentRequest option" where
  "getPaymentRequestById s paymentId = find (\<lambda>req. req_id req = paymentId) (getAllPaymentRequests s)"

definition validStatuses :: "string list" where
  "validStatuses = [''pending'', ''processing'', ''completed'', ''failed'', ''expired'', ''cancelled'']"

text \<open>
  \<^verbatim>\<open>updatePaymentRequestStatus\<close>. The request object is changed in place before the file
  is written, so a failed write leaves the new status in memory and throws. The result is
  the new state with either the error message (\<open>Inl\<close>) or the updated request.
  \<^verbatim>\<open>Object.assign\<close> puts the additional properties in front of the older ones, where a
  lookup finds them first; the callers pass no property of the fixed part of a request.
\<close>

definition updatePaymentRequestStatus ::
  "env \<Rightarrow> saveSite \<Rightarrow> string \<Rightarrow> string \<Rightarrow> (string \<times> jsvalue) list \<Rightarrow> state
     \<Rightarrow> state \<times> (string + paymentRequest)" where
  "updatePaymentRequestStatus e site paymentId status additionalData s =
    (case findIndex (\<lambda>req. req_id req = paymentId) (getAllPaymentRequests s) of
       None \<Rightarrow> (s, Inl ''Payment request not found'')
     | Some requestIndex \<Rightarrow>
        if status \<notin> set validStatuses
        then (s, Inl (''Invalid status: '' @ status @ ''. Valid statuses: '' @
                      ''pending, processing, completed, failed, expired, cancelled''))
        else
          (let paymentRequest = (getAllPaymentRequests s ! requestIndex)
                 \<lparr>req_status := status, req_updatedAt := now e,
                  req_extra := additionalData @ req_extra (getAllPaymentRequests s ! requestIndex)\<rparr>;
               s' = s\<lparr>paymentRequests := (getAllPaymentRequests s)[requestIndex := paymentRequest]\<rparr>
           in if saveSucceeds e site then (s', Inr paymentRequest)
              else (s', Inl ''Error saving payments data'')))"

text \<open>\<^verbatim>\<open>expireOldPaymentRequests\<close>: the periodic sweep over pending requests.\<close>

definition expireOldPaymentRequests :: "env \<Rightarrow> state \<Rightarrow> state \<times> (string + nat)" where
  "expireOldPaymentRequests e s =
    (let due = (\<lambda>req. req_status req = ''pending'' \<and> req_expiresAt req \<le> now e);
         expiredCount = length (filter due (getAllPaymentRequests s));
         updatedRequests = map (\<lambda>req. if due req
                                   then req\<lparr>req_status := ''expired'', req_updatedAt := now e\<rparr>
                                   else req) (getAllPaymentRequests s)
     in if expiredCount > 0
        then (if saveSucceeds e SaveRequests
              then (s\<lparr>paymentRequests := updatedRequests\<rparr>, Inr expiredCount)
              else (s\<lparr>paymentRequests := updatedRequests\<rparr>, Inl ''Error saving payments data''))
        else (s, Inr expiredCount))"

section \<open>PaymentService: recording attempts\<close>

record paymentData =
  pd_paymentRequestId :: "string option"
  pd_status :: "string option"
  pd_amount :: "number option"
  pd_merchantId :: "string option"
  pd_description :: "string option"
  pd_accountId :: "string option"
  pd_cardholderName :: "string option"
  pd_accountEmail :: "string option"
  pd_transactionId :: "timestamp option"
  pd_previousBalance :: "number option"
  pd_newBalance :: "number option"
  pd_errorReason :: "string option"
  pd_errorDetails :: "details option"
  pd_attemptNumber :: "number option"
  pd_clientIp :: "string option"
  pd_userAgent :: "string option"

text \<open>An object literal lists the properties it sets; the others are undefined.\<close>

definition noData :: paymentData where
  "noData = \<lparr>pd_paymentRequestId = None, pd_status = None, pd_amount = None,
     pd_merchantId = None, pd_description = None, pd_accountId = None,
     pd_cardholderName = None, pd_accountEmail = None, pd_transactionId = None,
     pd_previousBalance = None, pd_newBalance = None, pd_errorReason = None,
     pd_errorDetails = None, pd_attemptNumber = None, pd_clientIp = None,
     pd_userAgent = None\<rparr>"

definition validAttemptStatuses :: "string list" where
  "validAttemptStatuses = [''completed'', ''failed_pin'', ''failed_expired'',
     ''failed_insufficient_funds'', ''failed_invalid_credential'', ''failed_invalid_state'']"

text \<open>
  \<^verbatim>\<open>recordPaymentAttempt\<close>: the row is pushed onto the ledger before the file is
  written, so a failed write throws with the row already in memory. \<^verbatim>\<open>parseFloat\<close> of a
  Number is that Number, and \<^verbatim>\<open>NaN\<close> for a missing amount.
\<close>

definition recordPaymentAttempt :: "env \<Rightarrow> paymentData \<Rightarrow> state \<Rightarrow> state \<times> (string + attempt)" where
  "recordPaymentAttempt e d s =
    (case pd_paymentRequestId d of
       None \<Rightarrow> (s, Inl ''Missing required field: paymentRequestId'')
     | Some requestId \<Rightarrow>
        if requestId = [] then (s, Inl ''Missing required field: paymentRequestId'')
        else
         (case pd_status d of
            None \<Rightarrow> (s, Inl ''Missing required field: status'')
          | Some status \<Rightarrow>
             if status = [] then (s, Inl ''Missing required field: status'')
             else if status \<notin> set validAttemptStatuses
             then (s, Inl (''Invalid payment status: '' @ status))
             else
              (let paymentAttempt =
                    \<lparr>att_id = newId e,
                     att_paymentRequestId = requestId,
                     att_status = status,
                     att_amount = or_default (case pd_amount d of None \<Rightarrow> NaN | Some a \<Rightarrow> a)
                                             (Num 0),
                     att_merchantId = or_null (pd_merchantId d),
                     att_description = (case pd_description d of None \<Rightarrow> [] | Some t \<Rightarrow> t),
                     att_timestamp = now e,
                     att_accountId = or_null (pd_accountId d),
                     att_cardholderName = or_null (pd_cardholderName d),
                     att_accountEmail = or_null (pd_accountEmail d),
                     att_transactionId = pd_transactionId d,
                     att_previousBalance = num_or_null (pd_previousBalance d),
                     att_newBalance = num_or_null (pd_newBalance d),
                     att_errorReason = or_null (pd_errorReason d),
                     att_errorDetails = pd_errorDetails d,
                     att_attemptNumber = num_or_null (pd_attemptNumber d),
                     att_clientIp = or_null (pd_clientIp d),
                     att_userAgent = or_null (pd_userAgent d)\<rparr>;
                   s' = s\<lparr>payments := getAllPayments s @ [paymentAttempt]\<rparr>
               in if saveSucceeds e SaveAttempts then (s', Inr paymentAttempt)
                  else (s', Inl ''Error saving payments data''))))"

section \<open>AccountService\<close>

definition getAllAccounts :: "state \<Rightarrow> account list" where
  "getAllAccounts s = accounts s"

text \<open>
  \<^verbatim>\<open>updateAccountBalance\<close>: again the object is changed before the file is written. The
  balance stored is \<^verbatim>\<open>parseFloat(newBalance)\<close>, the Number itself.
\<close>

definition updateAccountBalance ::
  "env \<Rightarrow> string \<Rightarrow> number \<Rightarrow> string \<Rightarrow> state \<Rightarrow> state \<times> (string + account)" where
  "updateAccountBalance e accountId newBalance description s =
    (case findIndex (\<lambda>account. acc_id account = accountId) (getAllAccounts s) of
       None \<Rightarrow> (s, Inl ''Account not found'')
     | Some accountIndex \<Rightarrow>
        (let old = getAllAccounts s ! accountIndex;
             account = old\<lparr>acc_balance := newBalance,
                           acc_lastBalanceUpdate :=
                             Some (acc_balance old, newBalance, description, now e)\<rparr>;
             s' = s\<lparr>accounts := (getAllAccounts s)[accountIndex := account]\<rparr>
         in if saveSucceeds e SaveAccounts then (s', Inr account)
            else (s', Inl ''Error saving accounts data'')))"

section \<open>EmailService\<close>

text \<open>
  Both notifications return a result and never throw: without a transport they are
  skipped, and an error while sending is caught inside the method.
\<close>

definition sendSecurityAlertForPayment ::
  "env \<Rightarrow> account \<Rightarrow> paymentRequest \<Rightarrow> int \<Rightarrow> state \<Rightarrow> state" where
  "sendSecurityAlertForPayment e account paymentRequest consecutiveFailures s =
     s\<lparr>outbox := outbox s @
        [SecurityAlert (acc_id account) (req_id paymentRequest) consecutiveFailures
           (if \<not> emailConfigured e then NotConfigured
            else if alertEmailSucceeds e then Sent else SendFailed)]\<rparr>"

definition sendCredentialRevokedNotification :: "env \<Rightarrow> account \<Rightarrow> state \<Rightarrow> state" where
  "sendCredentialRevokedNotification e account s =
     s\<lparr>outbox := outbox s @
        [CredentialRevokedEmail (acc_id account)
           (if \<not> emailConfigured e then NotConfigured
            else if revokedEmailSucceeds e then Sent else SendFailed)]\<rparr>"

section \<open>PaymentController\<close>

text \<open>
  A handler ends by sending one HTTP response. \<open>Failure\<close> is
  \<^verbatim>\<open>res.status(code).json({success: false, error})\<close>; the other constructors are the
  successful responses of the three handlers.
\<close>

record completion =
  cmp_paymentId :: string
  cmp_transactionId :: string
  cmp_amount :: number
  cmp_merchantId :: string
  cmp_description :: string
  cmp_cardholderName :: string
  cmp_timestamp :: timestamp
  cmp_previousBalance :: number
  cmp_currentBalance :: number

datatype response =
    Failure nat string
  | InsufficientBalance number number
  | StatusOk paymentRequest "string option"
  | ProofAccepted string
  | PaymentCompleted completion

text \<open>
  \<^verbatim>\<open>paymentRequest.proofRequestId && ...\<close>: the property is attached by
  \<^verbatim>\<open>createPaymentRequest\<close> through \<^verbatim>\<open>updatePaymentRequestStatus\<close>; it counts when it is a
  non-empty string.
\<close>

definition proofRequestId :: "paymentRequest \<Rightarrow> string option" where
  "proofRequestId r =
    (case map_of (req_extra r) ''proofRequestId'' of
       Some (JStr v) \<Rightarrow> if v = [] then None else Some v
     | _ \<Rightarrow> None)"

text \<open>
  The handlers hold a reference to the request object, which
  \<^verbatim>\<open>updatePaymentRequestStatus\<close> changes in place: both reach the first request with the
  identifier. Reading a property after an update is reading the request again.
\<close>

definition liveRequest :: "state \<Rightarrow> paymentRequest \<Rightarrow> paymentRequest" where
  "liveRequest s paymentRequest =
    (case getPaymentRequestById s (req_id paymentRequest) of
       None \<Rightarrow> paymentRequest | Some r \<Rightarrow> r)"

definition expiredAttempt :: "string \<Rightarrow> paymentRequest \<Rightarrow> string \<Rightarrow> paymentData" where
  "expiredAttempt paymentId paymentRequest reason =
     noData\<lparr>pd_paymentRequestId := Some paymentId,
            pd_status := Some ''failed_expired'',
            pd_amount := Some (req_amount paymentRequest),
            pd_merchantId := Some (req_merchantId paymentRequest),
            pd_description := Some (req_description paymentRequest),
            pd_errorReason := Some reason,
            pd_errorDetails := Some (RequestExpiredAt (req_expiresAt paymentRequest))\<rparr>"

subsection \<open>getPaymentStatus\<close>

text \<open>
  The proof check of \<^verbatim>\<open>getPaymentStatus\<close> runs inside its own \<^verbatim>\<open>try\<close>: an error of the
  verifier or of the status update is logged, and the response is sent all the same. The
  result is the state of the proof as far as it was read; the response reports
  \<^verbatim>\<open>proofStatus?.state || null\<close>.
\<close>

definition getPaymentStatus_proof :: "env \<Rightarrow> string \<Rightarrow> paymentRequest \<Rightarrow> state \<Rightarrow> state \<times> string option" where
  "getPaymentStatus_proof e paymentId paymentRequest s =
    (if proofRequestId paymentRequest \<noteq> None \<and> procivisConfigured e then
       (case proofRequestStatus e of
          Inl err \<Rightarrow> (s, None)
        | Inr proofState \<Rightarrow>
           if proofState = ''ACCEPTED'' \<and> req_status (liveRequest s paymentRequest) = ''pending''
           then (fst (updatePaymentRequestStatus e SaveRequests paymentId ''processing''
                        [(''proofState'', JStr proofState), (''proofAcceptedAt'', JTime (now e))] s),
                 Some proofState)
           else (s, Some proofState))
     else (s, None))"

definition getPaymentStatus :: "env \<Rightarrow> string \<Rightarrow> state \<Rightarrow> state \<times> response" where
  "getPaymentStatus e paymentId s =
    (case getPaymentRequestById s paymentId of
       None \<Rightarrow> (s, Failure 404 ''Payment request not found'')
     | Some paymentRequest \<Rightarrow>
        (let afterExpiry =
              (if req_status paymentRequest = ''pending'' \<and> req_expiresAt paymentRequest \<le> now e
               then (case updatePaymentRequestStatus e SaveRequests paymentId ''expired'' [] s of
                       (s1, Inl err) \<Rightarrow> (s1, Some err)
                     | (s1, Inr _) \<Rightarrow>
                        (case recordPaymentAttempt e
                                (expiredAttempt paymentId paymentRequest ''Payment request expired'') s1 of
                           (s2, Inl err) \<Rightarrow> (s2, Some err)
                         | (s2, Inr _) \<Rightarrow> (s2, None)))
               else (s, None))
         in (case afterExpiry of
               (s2, Some err) \<Rightarrow> (s2, Failure 500 err)
             | (s2, None) \<Rightarrow>
                (case getPaymentStatus_proof e paymentId paymentRequest s2 of
                   (s3, proofState) \<Rightarrow>
                     (s3, StatusOk (liveRequest s3 paymentRequest) (or_null proofState))))))"

subsection \<open>processPayment\<close>

definition processPayment :: "env \<Rightarrow> string \<Rightarrow> state \<Rightarrow> state \<times> response" where
  "processPayment e paymentId s =
    (case getPaymentRequestById s paymentId of
       None \<Rightarrow> (s, Failure 404 ''Payment request not found'')
     | Some paymentRequest \<Rightarrow>
        if req_status paymentRequest \<notin> set [''pending'', ''processing'']
        then (s, Failure 400 (''Payment request is '' @ req_status paymentRequest
                               @ '' and cannot be processed''))
        else if req_expiresAt paymentRequest \<le> now e
        then (case updatePaymentRequestStatus e SaveRequests paymentId ''expired'' [] s of
                (s1, Inl err) \<Rightarrow> (s1, Failure 500 err)
              | (s1, Inr _) \<Rightarrow>
                 (case recordPaymentAttempt e
                         (expiredAttempt paymentId paymentRequest
                            ''Payment request expired during processing'') s1 of
                    (s2, Inl err) \<Rightarrow> (s2, Failure 500 err)
                  | (s2, Inr _) \<Rightarrow> (s2, Failure 400 ''Payment request has expired'')))
        else if proofRequestId paymentRequest \<noteq> None \<and> procivisConfigured e
        then (case proofRequestDetails e of
                Inl err \<Rightarrow> (s, Failure 500 ''Failed to verify proof status'')
              | Inr proofDetails \<Rightarrow>
                 if proof_state proofDetails = ''ACCEPTED''
                 then (case updatePaymentRequestStatus e SaveRequests paymentId ''processing''
                              [(''proofState'', JStr (proof_state proofDetails)),
                               (''proofAcceptedAt'', JTime (now e))] s of
                         (s1, Inl err) \<Rightarrow> (s1, Failure 500 ''Failed to verify proof status'')
                       | (s1, Inr _) \<Rightarrow> (s1, ProofAccepted paymentId))
                 else (s, Failure 400 ''Proof not yet accepted by customer''))
        else (s, Failure 400 ''No proof verification available''))"

subsection \<open>verifyPINAndCompletePayment\<close>

text \<open>\<^verbatim>\<open>account.pan.slice(-4)\<close>: the last four characters, or all of a shorter string.\<close>

definition findAccountByCredentialData :: "state \<Rightarrow> string \<Rightarrow> string \<Rightarrow> account option" where
  "findAccountByCredentialData s cardHolderName last4Digits =
     find (\<lambda>account. acc_cardholderName account = cardHolderName \<and>
                      drop (length (acc_pan account) - 4) (acc_pan account) = last4Digits)
          (getAllAccounts s)"

definition attemptFor :: "string \<Rightarrow> paymentRequest \<Rightarrow> string \<Rightarrow> paymentData" where
  "attemptFor paymentId paymentRequest status =
     noData\<lparr>pd_paymentRequestId := Some paymentId,
            pd_status := Some status,
            pd_amount := Some (req_amount paymentRequest),
            pd_merchantId := Some (req_merchantId paymentRequest),
            pd_description := Some (req_description paymentRequest)\<rparr>"

definition withAccount :: "account \<Rightarrow> paymentData \<Rightarrow> paymentData" where
  "withAccount account d =
     d\<lparr>pd_accountId := Some (acc_id account),
       pd_cardholderName := Some (acc_cardholderName account),
       pd_accountEmail := Some (acc_email account)\<rparr>"

text \<open>
  The account is resolved from the claims of the accepted proof. The whole block is one
  \<^verbatim>\<open>try\<close>: an error of the verifier, a proof without inputs, and a failed write of the
  invalid-credential row all end in the response 500 of its \<^verbatim>\<open>catch\<close>. \<open>Inl\<close> is a
  response that ends the handler, \<open>Inr\<close> the account.
\<close>

definition resolveAccount ::
  "env \<Rightarrow> string \<Rightarrow> paymentRequest \<Rightarrow> state \<Rightarrow> state \<times> (response + account)" where
  "resolveAccount e paymentId paymentRequest s =
    (if proofRequestId paymentRequest \<noteq> None \<and> procivisConfigured e then
       (case proofRequestDetails e of
          Inl err \<Rightarrow> (s, Inl (Failure 500 ''Failed to verify credentials''))
        | Inr proofDetails \<Rightarrow>
           if proof_state proofDetails \<noteq> ''ACCEPTED''
           then (s, Inl (Failure 400 ''Credential verification not completed''))
           else
            (case proofInputs proofDetails of
               [] \<Rightarrow> (s, Inl (Failure 500 ''Failed to verify credentials''))
             | claims # _ \<Rightarrow>
                (case (map_of claims ''cardHolderName'', map_of claims ''last4Digits'') of
                   (Some cardHolderName, Some last4Digits) \<Rightarrow>
                     if cardHolderName = [] \<or> last4Digits = []
                     then (s, Inl (Failure 400 ''Required credential data not found''))
                     else
                      (case findAccountByCredentialData s cardHolderName last4Digits of
                         Some account \<Rightarrow> (s, Inr account)
                       | None \<Rightarrow>
                          (case recordPaymentAttempt e
                                  ((attemptFor paymentId paymentRequest ''failed_invalid_credential'')
                                     \<lparr>pd_errorReason := Some ''Account not found for provided credentials'',
                                      pd_errorDetails :=
                                        Some (CredentialNameLast4 cardHolderName last4Digits)\<rparr>) s of
                             (s1, Inl err) \<Rightarrow> (s1, Inl (Failure 500 ''Failed to verify credentials''))
                           | (s1, Inr _) \<Rightarrow>
                               (s1, Inl (Failure 400 ''Account not found for provided credentials''))))
                 | _ \<Rightarrow> (s, Inl (Failure 400 ''Required credential data not found'')))))
     else (s, Inl (Failure 400 ''No credential verification available'')))"

text \<open>
  After a failed PIN check: the consecutive failures of the account are counted on the
  ledger that already holds the new row, and compared with the two thresholds.
  (\<^verbatim>\<open>getSecurityStatus\<close> is called as well, for a log line only.)
\<close>

definition securityResponse ::
  "securityConfig \<Rightarrow> env \<Rightarrow> account \<Rightarrow> paymentRequest \<Rightarrow> state \<Rightarrow> state" where
  "securityResponse cfg e account paymentRequest s =
    (let consecutiveFailures = getConsecutivePinFailures s (acc_id account);
         s1 = (if shouldTriggerAlert cfg consecutiveFailures
               then sendSecurityAlertForPayment e account paymentRequest consecutiveFailures s
               else s)
     in if shouldTriggerRevocation cfg consecutiveFailures then
          (case acc_credentialId account of
             None \<Rightarrow> s1
           | Some credentialId \<Rightarrow>
              if credentialId \<noteq> [] \<and> procivisConfigured e then
                (if revokeSucceeds e
                 then sendCredentialRevokedNotification e account
                        (s1\<lparr>outbox := outbox s1 @ [RevokeCredential credentialId True]\<rparr>)
                 else s1\<lparr>outbox := outbox s1 @
                            [RevokeCredential credentialId False, RevokeFailureLogged credentialId]\<rparr>)
              else s1)
        else s1)"

text \<open>
  The debit: balance, ledger row, request status, in this order. The new balance is the
  double subtraction \<^verbatim>\<open>previousBalance - paymentRequest.amount\<close>.
\<close>

definition completePayment ::
  "env \<Rightarrow> string \<Rightarrow> paymentRequest \<Rightarrow> account \<Rightarrow> state \<Rightarrow> state \<times> (string + response)" where
  "completePayment e paymentId paymentRequest account s =
    (let previousBalance = acc_balance account;
         newBalance = js_sub previousBalance (req_amount paymentRequest)
     in case updateAccountBalance e (acc_id account) newBalance
               (''Payment via PIN verification - Payment ID: '' @ paymentId) s of
          (s1, Inl err) \<Rightarrow> (s1, Inl err)
        | (s1, Inr _) \<Rightarrow>
           (case recordPaymentAttempt e
                   ((withAccount account (attemptFor paymentId paymentRequest ''completed''))
                      \<lparr>pd_transactionId := Some (now e),
                       pd_previousBalance := Some previousBalance,
                       pd_newBalance := Some newBalance\<rparr>) s1 of
              (s2, Inl err) \<Rightarrow> (s2, Inl err)
            | (s2, Inr completedPayment) \<Rightarrow>
               (case updatePaymentRequestStatus e SaveRequests paymentId ''completed''
                       [(''completedAt'', JTime (now e)),
                        (''transactionId'', JStr (att_id completedPayment)),
                        (''accountId'', JStr (acc_id account)),
                        (''cardholderName'', JStr (acc_cardholderName account)),
                        (''pinVerifiedAt'', JTime (now e))] s2 of
                  (s3, Inl err) \<Rightarrow> (s3, Inl err)
                | (s3, Inr _) \<Rightarrow>
                   (s3, Inr (PaymentCompleted
                      \<lparr>cmp_paymentId = paymentId,
                       cmp_transactionId = att_id completedPayment,
                       cmp_amount = req_amount paymentRequest,
                       cmp_merchantId = req_merchantId paymentRequest,
                       cmp_description = req_description paymentRequest,
                       cmp_cardholderName = acc_cardholderName account,
                       cmp_timestamp = att_timestamp completedPayment,
                       cmp_previousBalance = previousBalance,
                       cmp_currentBalance = newBalance\<rparr>)))))"

text \<open>
  The handler after its status check, from the call of the verifier on. \<open>Inl\<close> is an
  error thrown to the \<^verbatim>\<open>catch\<close> of the handler.
\<close>

definition verifyPIN_afterCheck ::
  "securityConfig \<Rightarrow> env \<Rightarrow> string \<Rightarrow> string \<Rightarrow> paymentRequest \<Rightarrow> state
     \<Rightarrow> state \<times> (string + response)" where
  "verifyPIN_afterCheck cfg e paymentId pin paymentRequest s =
    (case resolveAccount e paymentId paymentRequest s of
       (s1, Inl response) \<Rightarrow> (s1, Inr response)
     | (s1, Inr account) \<Rightarrow>
        if pin \<noteq> acc_pin account then
          (case recordPaymentAttempt e
                  ((withAccount account (attemptFor paymentId paymentRequest ''failed_pin''))
                     \<lparr>pd_errorReason := Some ''Invalid PIN'',
                      pd_errorDetails := Some PinVerificationFailed,
                      pd_clientIp := clientIp e,
                      pd_userAgent := userAgent e\<rparr>) s1 of
             (s2, Inl err) \<Rightarrow> (s2, Inl err)
           | (s2, Inr _) \<Rightarrow>
              (securityResponse cfg e account paymentRequest s2,
               Inr (Failure 400 ''Invalid PIN. Please check and try again.'')))
        else if js_lt (acc_balance account) (req_amount paymentRequest) then
          (case recordPaymentAttempt e
                  ((withAccount account
                      (attemptFor paymentId paymentRequest ''failed_insufficient_funds''))
                     \<lparr>pd_errorReason := Some ''Insufficient balance'',
                      pd_errorDetails :=
                        Some (AvailableRequired (acc_balance account) (req_amount paymentRequest)),
                      pd_previousBalance := Some (acc_balance account)\<rparr>) s1 of
             (s2, Inl err) \<Rightarrow> (s2, Inl err)
           | (s2, Inr _) \<Rightarrow>
              (case updatePaymentRequestStatus e SaveRequests paymentId ''failed''
                      [(''errorReason'', JStr ''Insufficient balance''),
                       (''errorDetails'',
                        JText (AvailableRequired (acc_balance account) (req_amount paymentRequest))),
                       (''failedAt'', JTime (now e))] s2 of
                 (s3, Inl err) \<Rightarrow> (s3, Inl err)
               | (s3, Inr _) \<Rightarrow>
                  (s3, Inr (InsufficientBalance (acc_balance account) (req_amount paymentRequest)))))
        else completePayment e paymentId paymentRequest account s1)"

text \<open>
  The \<^verbatim>\<open>catch\<close> of the handler means to mark the request as failed, but it names
  \<^verbatim>\<open>paymentId\<close>, a \<^verbatim>\<open>const\<close> of the \<^verbatim>\<open>try\<close> block that is not in scope there: evaluating
  the argument throws a ReferenceError, the inner \<^verbatim>\<open>try\<close> around the update catches and
  logs it, and \<^verbatim>\<open>updatePaymentRequestStatus\<close> is never called. What remains is the
  response 500 with the message of the first error.
\<close>

definition verifyPIN_catch :: "string \<Rightarrow> state \<Rightarrow> state \<times> response" where
  "verifyPIN_catch err s = (s, Failure 500 err)"

definition verifyPIN_resume ::
  "securityConfig \<Rightarrow> env \<Rightarrow> string \<Rightarrow> string \<Rightarrow> paymentRequest \<Rightarrow> state \<Rightarrow> state \<times> response" where
  "verifyPIN_resume cfg e paymentId pin paymentRequest s =
    (case verifyPIN_afterCheck cfg e paymentId pin paymentRequest s of
       (s1, Inl err) \<Rightarrow> verifyPIN_catch err s1
     | (s1, Inr response) \<Rightarrow> (s1, response))"

text \<open>
  The handler up to its status check. There is no \<^verbatim>\<open>await\<close> on this stretch, apart from
  the write of the invalid-state row, which ends the handler. \<open>Proceed\<close> is the handler
  about to call the verifier, holding the PIN and the request it has read.
\<close>

datatype checked = Thrown string | Responded response | Proceed string paymentRequest

definition verifyPIN_checks :: "env \<Rightarrow> string \<Rightarrow> string option \<Rightarrow> state \<Rightarrow> state \<times> checked" where
  "verifyPIN_checks e paymentId pin s =
    (if paymentId = [] then (s, Responded (Failure 400 ''Payment ID is required''))
     else
      (case pin of
         None \<Rightarrow> (s, Responded (Failure 400 ''PIN is required''))
       | Some p \<Rightarrow>
          if p = [] then (s, Responded (Failure 400 ''PIN is required''))
          else
           (case getPaymentRequestById s paymentId of
              None \<Rightarrow> (s, Responded (Failure 404 ''Payment request not found''))
            | Some paymentRequest \<Rightarrow>
               if req_status paymentRequest \<noteq> ''processing'' then
                 (case recordPaymentAttempt e
                         ((attemptFor paymentId paymentRequest ''failed_invalid_state'')
                            \<lparr>pd_errorReason := Some ''Payment not in processing state'',
                             pd_errorDetails :=
                               Some (CurrentStatusExpectedProcessing (req_status paymentRequest))\<rparr>) s of
                    (s1, Inl err) \<Rightarrow> (s1, Thrown err)
                  | (s1, Inr _) \<Rightarrow>
                     (s1, Responded
                            (Failure 400 ''Payment request is not ready for PIN verification'')))
               else (s, Proceed p paymentRequest))))"

definition verifyPINAndCompletePayment ::
  "securityConfig \<Rightarrow> env \<Rightarrow> string \<Rightarrow> string option \<Rightarrow> state \<Rightarrow> state \<times> response" where
  "verifyPINAndCompletePayment cfg e paymentId pin s =
    (case verifyPIN_checks e paymentId pin s of
       (s1, Thrown err) \<Rightarrow> verifyPIN_catch err s1
     | (s1, Responded response) \<Rightarrow> (s1, response)
     | (s1, Proceed p paymentRequest) \<Rightarrow> verifyPIN_resume cfg e paymentId p paymentRequest s1)"

section \<open>Handling calls one at a time\<close>

text \<open>
  The three handlers that act on an existing request, and a server that runs each call
  to its end before it starts the next one.
\<close>

datatype call =
    GetPaymentStatus env string
  | ProcessPayment env string
  | VerifyPIN env string "string option"

fun handle :: "securityConfig \<Rightarrow> call \<Rightarrow> state \<Rightarrow> state \<times> response" where
  "handle cfg (GetPaymentStatus e paymentId) s = getPaymentStatus e paymentId s"
| "handle cfg (ProcessPayment e paymentId) s = processPayment e paymentId s"
| "handle cfg (VerifyPIN e paymentId pin) s = verifyPINAndCompletePayment cfg e paymentId pin s"

fun serve :: "securityConfig \<Rightarrow> call list \<Rightarrow> state \<Rightarrow> state \<times> response list" where
  "serve cfg [] s = (s, [])"
| "serve cfg (c # cs) s =
     (case handle cfg c s of
        (s1, r) \<Rightarrow> (case serve cfg cs s1 of (s2, rs) \<Rightarrow> (s2, r # rs)))"

definition isCompletionOf :: "string \<Rightarrow> response \<Rightarrow> bool" where
  "isCompletionOf paymentId r =
     (case r of PaymentCompleted c \<Rightarrow> cmp_paymentId c = paymentId | _ \<Rightarrow> False)"

definition terminal :: "string \<Rightarrow> bool" where
  "terminal status \<longleftrightarrow> status \<in> set [''completed'', ''failed'', ''expired'', ''cancelled'']"

text \<open>
  The status of the request with a given identifier, and the arrows along which the
  handlers move it.
\<close>

definition requestStatus :: "state \<Rightarrow> string \<Rightarrow> string option" where
  "requestStatus s paymentId = map_option req_status (getPaymentRequestById s paymentId)"

definition transition :: "string \<Rightarrow> string \<Rightarrow> bool" where
  "transition old new \<longleftrightarrow>
     (old = ''pending'' \<and> new \<in> set [''processing'', ''expired''])
     \<or> (old = ''processing'' \<and> new \<in> set [''processing'', ''completed'', ''failed'', ''expired''])"

section \<open>Example data\<close>

text \<open>
  One request that waits for its PIN, the account of its card holder, and an environment
  in which the verifier has accepted the proof and every write succeeds.
\<close>

definition exampleRequest :: paymentRequest where
  "exampleRequest =
     \<lparr>req_id = ''pay_1'', req_amount = Num 30, req_description = ''coffee'',
      req_merchantId = ''m1'', req_status = ''processing'', req_createdAt = 1000,
      req_updatedAt = 1500, req_expiresAt = 1801000,
      req_extra = [(''proofRequestId'', JStr ''proof_1'')]\<rparr>"

definition exampleAccount :: account where
  "exampleAccount =
     \<lparr>acc_id = ''acc_1'', acc_email = ''alice@example.org'', acc_pin = ''123456'',
      acc_pan = ''4111111111111111'', acc_cardholderName = ''Alice'', acc_balance = Num 100,
      acc_credentialId = Some ''cred_1'', acc_lastBalanceUpdate = None\<rparr>"

definition exampleEnv :: env where
  "exampleEnv =
     \<lparr>now = 2000, newId = ''pay_2'', procivisConfigured = True,
      proofRequestStatus = Inr ''ACCEPTED'',
      proofRequestDetails =
        Inr \<lparr>proof_state = ''ACCEPTED'',
             proofInputs = [[(''cardHolderName'', ''Alice''), (''last4Digits'', ''1111'')]]\<rparr>,
      revokeSucceeds = True, emailConfigured = True, alertEmailSucceeds = True,
      revokedEmailSucceeds = True, saveSucceeds = (\<lambda>site. True),
      clientIp = Some ''10.0.0.1'', userAgent = Some ''curl''\<rparr>"

definition exampleState :: state where
  "exampleState =
     \<lparr>paymentRequests = [exampleRequest], payments = [], accounts = [exampleAccount],
      outbox = []\<rparr>"

definition defaultConfig :: securityConfig where
  "defaultConfig = fst (newSecurityConfig None None)"

text \<open>A ledger row of the example account, recorded when the clock shows \<open>t\<close>.\<close>

definition recordAt :: "timestamp \<Rightarrow> string \<Rightarrow> state \<Rightarrow> state" where
  "recordAt t status s =
     fst (recordPaymentAttempt (exampleEnv\<lparr>now := t\<rparr>)
            (withAccount exampleAccount (attemptFor ''pay_1'' exampleRequest status)) s)"

definition fourPinFailures :: state where
  "fourPinFailures =
     recordAt 4 ''failed_pin'' (recordAt 3 ''failed_pin''
       (recordAt 2 ''failed_pin'' (recordAt 1 ''failed_pin'' exampleState)))"


text \<open>
  The same account after two PIN failures, and an environment in which the write of the
  ledger fails while the clock shows 5.
\<close>

definition twoPinFailures :: state where
  "twoPinFailures = recordAt 2 ''failed_pin'' (recordAt 1 ''failed_pin'' exampleState)"

definition ledgerWriteFails :: env where
  "ledgerWriteFails = exampleEnv\<lparr>now := 5, saveSucceeds := (\<lambda>site. site \<noteq> SaveAttempts)\<rparr>"

text \<open>The example account before any credential was issued for it, after four PIN failures.\<close>

definition noCredentialState :: state where
  "noCredentialState = fourPinFailures\<lparr>accounts := [exampleAccount\<lparr>acc_credentialId := None\<rparr>]\<rparr>"

text \<open>An accepted proof whose claims lack the last four digits, and one of an unknown card holder.\<close>

definition claimsMissingEnv :: env where
  "claimsMissingEnv =
     exampleEnv\<lparr>proofRequestDetails :=
       Inr \<lparr>proof_state = ''ACCEPTED'', proofInputs = [[(''cardHolderName'', ''Alice'')]]\<rparr>\<rparr>"

definition unknownHolderEnv :: env where
  "unknownHolderEnv =
     exampleEnv\<lparr>proofRequestDetails :=
       Inr \<lparr>proof_state = ''ACCEPTED'',
            proofInputs = [[(''cardHolderName'', ''Bob''), (''last4Digits'', ''1111'')]]\<rparr>\<rparr>"

text \<open>The example request after its payment was completed.\<close>

definition completedState :: state where
  "completedState = exampleState\<lparr>paymentRequests := [exampleRequest\<lparr>req_status := ''completed''\<rparr>]\<rparr>"

text \<open>A clock reading after the request has expired (\<open>req_expiresAt exampleRequest = 1801000\<close>).\<close>

definition lateEnv :: env where
  "lateEnv = exampleEnv\<lparr>now := 2000000\<rparr>"

text \<open>
  Two submissions of the right PIN for the example request. Both pass the status check
  on \<open>exampleState\<close> and wait for the verifier; the first is resumed and runs to its end,
  then the second is resumed with the request it read before.
\<close>

definition secondEnv :: env where
  "secondEnv = exampleEnv\<lparr>now := 2500, newId := ''pay_3''\<rparr>"

definition firstResumed :: "state \<times> response" where
  "firstResumed = verifyPIN_resume defaultConfig exampleEnv ''pay_1'' ''123456'' exampleRequest
                    exampleState"

definition secondResumed :: "state \<times> response" where
  "secondResumed = verifyPIN_resume defaultConfig secondEnv ''pay_1'' ''123456'' exampleRequest
                     (fst firstResumed)"

text \<open>The example request while it still waits for the proof.\<close>

definition pendingState :: state where
  "pendingState = exampleState\<lparr>paymentRequests := [exampleRequest\<lparr>req_status := ''pending''\<rparr>]\<rparr>"

section \<open>Properties of the Number arithmetic\<close>

text \<open>
  The binary exponent is the one of the definition, \<open>2 ^ e \<le> \<bar>x\<bar> < 2 ^ (e + 1)\<close>, and
  rounding leaves every double as it is: a value \<open>n * 2 ^ j\<close> with \<open>\<bar>n\<bar> < 2 ^ 53\<close> and
  \<open>-1074 \<le> j \<le> 971\<close>. In particular the integers up to \<open>2 ^ 53\<close> and their differences
  within that range are exact.
\<close>

lemma pow2_powi: "pow2 k = 2 powi k"
  by (simp add: pow2_def power_int_def power_one_over inverse_eq_divide)

lemma pow2_pos: "0 < pow2 k"
  by (simp add: pow2_powi)

lemma pow2_add: "pow2 (a + b) = pow2 a * pow2 b"
  by (simp add: pow2_powi power_int_add)

lemma pow2_nat: "0 \<le> k \<Longrightarrow> pow2 k = of_int (2 ^ nat k)"
  by (simp add: pow2_def)

lemma pow2_mono: "a \<le> b \<Longrightarrow> pow2 a \<le> pow2 b"
  unfolding pow2_powi by (rule power_int_increasing) simp_all

lemma pow2_less: "pow2 a < pow2 b \<Longrightarrow> a < b"
  using pow2_mono[of b a] by (cases "a < b") simp_all

lemma binaryExponent_ge1:
  assumes "1 \<le> \<bar>x\<bar>"
  shows "pow2 (binaryExponent x) \<le> \<bar>x\<bar> \<and> \<bar>x\<bar> < pow2 (binaryExponent x + 1)"
proof -
  define f where "f = \<lfloor>\<bar>x\<bar>\<rfloor>"
  have f: "0 < f" using assms unfolding f_def by linarith
  from bitlen_bounds[OF f] have b: "2 ^ nat (bitlen f - 1) \<le> f" "f < 2 ^ nat (bitlen f)" by auto
  have bl: "1 \<le> bitlen f" using f by (simp add: bitlen_alt_def)
  have e: "binaryExponent x = bitlen f - 1" using assms by (simp add: binaryExponent_def f_def)
  have "pow2 (bitlen f - 1) = of_int (2 ^ nat (bitlen f - 1))" using bl by (simp add: pow2_nat)
  also have "\<dots> \<le> of_int f" using b(1) by (simp only: of_int_le_iff)
  also have "\<dots> \<le> \<bar>x\<bar>" unfolding f_def by simp
  finally have lo: "pow2 (bitlen f - 1) \<le> \<bar>x\<bar>" .
  have "f + 1 \<le> 2 ^ nat (bitlen f)" using b(2) by simp
  then have "(of_int (f + 1) :: rat) \<le> of_int (2 ^ nat (bitlen f))" by (simp only: of_int_le_iff)
  moreover have "\<bar>x\<bar> < of_int (f + 1)" unfolding f_def by linarith
  ultimately have "\<bar>x\<bar> < of_int (2 ^ nat (bitlen f))" by linarith
  also have "\<dots> = pow2 (bitlen f)" using bl by (simp add: pow2_nat)
  finally have hi: "\<bar>x\<bar> < pow2 (bitlen f)" .
  from lo hi show ?thesis unfolding e by simp
qed

lemma binaryExponent_lt1:
  assumes "x \<noteq> 0" and "\<bar>x\<bar> < 1"
  shows "pow2 (binaryExponent x) \<le> \<bar>x\<bar> \<and> \<bar>x\<bar> < pow2 (binaryExponent x + 1)"
proof -
  define y where "y = 1 / \<bar>x\<bar>"
  define c where "c = \<lceil>y\<rceil>"
  define L where "L = bitlen (c - 1)"
  have xpos: "0 < \<bar>x\<bar>" using assms(1) by simp
  have y1: "1 < y" using assms xpos unfolding y_def by simp
  have c2: "2 \<le> c" using y1 unfolding c_def by linarith
  then have c1: "0 < c - 1" by simp
  from bitlen_bounds[OF c1] have b: "2 ^ nat (L - 1) \<le> c - 1" "c - 1 < 2 ^ nat L"
    unfolding L_def by auto
  have L1: "1 \<le> L" using c1 unfolding L_def by (simp add: bitlen_alt_def)
  have e: "binaryExponent x = - L" using assms by (simp add: binaryExponent_def L_def c_def y_def)
  have "y \<le> of_int c" unfolding c_def by simp
  also have "c \<le> 2 ^ nat L" using b(2) by simp
  then have "(of_int c :: rat) \<le> of_int (2 ^ nat L)" by (simp only: of_int_le_iff)
  finally have yhi: "y \<le> 2 ^ nat L" by simp
  have "(of_int (2 ^ nat (L - 1)) :: rat) \<le> of_int (c - 1)" using b(1) by (simp only: of_int_le_iff)
  moreover have "of_int (c - 1) < y" unfolding c_def by linarith
  ultimately have ylo: "2 ^ nat (L - 1) < y" by simp
  have p: "pow2 (- L) = 1 / 2 ^ nat L" using L1 by (simp add: pow2_def)
  have q: "pow2 (- L + 1) = 1 / 2 ^ nat (L - 1)"
  proof (cases "L = 1")
    case True then show ?thesis by (simp add: pow2_def)
  next
    case False
    then have "- L + 1 < 0" using L1 by simp
    then show ?thesis by (simp add: pow2_def)
  qed
  have xy: "\<bar>x\<bar> = 1 / y" unfolding y_def by simp
  have ypos: "0 < y" using y1 by simp
  have lo: "pow2 (- L) \<le> \<bar>x\<bar>" unfolding p xy using yhi ypos by (simp add: frac_le)
  have hi: "\<bar>x\<bar> < pow2 (- L + 1)" unfolding q xy using ylo ypos
    by (simp add: frac_less2)
  from lo hi show ?thesis unfolding e by simp
qed

lemma binaryExponent_bounds:
  assumes "x \<noteq> 0"
  shows "pow2 (binaryExponent x) \<le> \<bar>x\<bar> \<and> \<bar>x\<bar> < pow2 (binaryExponent x + 1)"
  using binaryExponent_ge1[of x] binaryExponent_lt1[of x] assms by linarith

lemma roundHalfEven_int: "roundHalfEven (of_int m) = m"
  by (simp add: roundHalfEven_def)

lemma round64_exact:
  assumes x: "x = of_int n * pow2 j" and n: "\<bar>n\<bar> < 2 ^ 53" and j: "- 1074 \<le> j" "j \<le> 971"
  shows "round64 x = Num x"
proof (cases "x = 0")
  case True
  then show ?thesis by (simp add: round64_def)
next
  case False
  define e where "e = binaryExponent x"
  define k where "k = max e (- 1022) - 52"
  from binaryExponent_bounds[OF False] have lo: "pow2 e \<le> \<bar>x\<bar>" unfolding e_def by simp
  have "\<bar>x\<bar> = of_int \<bar>n\<bar> * pow2 j" unfolding x using pow2_pos[of j] by (simp add: abs_mult)
  also have "\<dots> < of_int (2 ^ 53) * pow2 j"
    using n pow2_pos[of j] by (simp only: mult_less_cancel_right_pos of_int_less_iff)
  also have "\<dots> = pow2 (53 + j)"
  proof -
    have "pow2 53 = of_int (2 ^ 53)" by (simp add: pow2_def)
    then show ?thesis using pow2_add[of 53 j] by simp
  qed
  finally have hi: "\<bar>x\<bar> < pow2 (53 + j)" .
  from lo hi have "pow2 e < pow2 (53 + j)" by linarith
  then have "e < 53 + j" by (rule pow2_less)
  with j have kj: "k \<le> j" unfolding k_def by simp
  have "x / pow2 k = of_int n * (pow2 j / pow2 k)" unfolding x by simp
  also have "pow2 j = pow2 (j - k) * pow2 k" using pow2_add[of "j - k" k] by simp
  also have "pow2 (j - k) * pow2 k / pow2 k = pow2 (j - k)" using pow2_pos[of k] by simp
  also have "pow2 (j - k) = of_int (2 ^ nat (j - k))" using kj by (simp add: pow2_nat)
  finally have q: "x / pow2 k = of_int (n * 2 ^ nat (j - k))" by simp
  have y: "of_int (roundHalfEven (x / pow2 k)) * pow2 k = x"
  proof -
    have "of_int (roundHalfEven (x / pow2 k)) * pow2 k = x / pow2 k * pow2 k"
      unfolding q roundHalfEven_int ..
    also have "\<dots> = x" using pow2_pos[of k] by simp
    finally show ?thesis .
  qed
  have "pow2 (53 + j) \<le> pow2 1024"
    using j(2) by (intro pow2_mono) simp
  moreover have "pow2 1024 = 2 ^ 1024" by (simp add: pow2_def)
  ultimately have "\<bar>x\<bar> < 2 ^ 1024" using hi by linarith
  then have r: "\<not> 2 ^ 1024 \<le> x" "\<not> x \<le> - (2 ^ 1024)" by linarith+
  show ?thesis
    using False r unfolding round64_def Let_def e_def[symmetric] k_def[symmetric] y by simp
qed


lemma round64_int: "\<bar>n\<bar> \<le> 2 ^ 53 \<Longrightarrow> round64 (of_int n) = Num (of_int n)"
proof (cases "\<bar>n\<bar> < 2 ^ 53")
  case True
  then show ?thesis using round64_exact[of "of_int n" n 0] by (simp add: pow2_def)
next
  case False
  assume "\<bar>n\<bar> \<le> 2 ^ 53"
  with False have "n = 2 * 2 ^ 52 \<or> n = 2 * (- (2 ^ 52))" by auto
  then show ?thesis
  proof
    assume n: "n = 2 * 2 ^ 52"
    show ?thesis using round64_exact[of "of_int n" "2 ^ 52" 1] unfolding n
      by (simp add: pow2_def)
  next
    assume n: "n = 2 * (- (2 ^ 52))"
    show ?thesis using round64_exact[of "of_int n" "- (2 ^ 52)" 1] unfolding n
      by (simp add: pow2_def)
  qed
qed

lemma round64_half: "\<bar>n\<bar> < 2 ^ 53 \<Longrightarrow> round64 (of_int n / 2) = Num (of_int n / 2)"
  using round64_exact[of "of_int n / 2" n "-1"] by (simp add: pow2_def)

lemma round64_numeral [simp]:
  "(numeral v :: int) \<le> 2 ^ 53 \<Longrightarrow> round64 (numeral v) = Num (numeral v)"
  using round64_int[of "numeral v"] by simp

lemma round64_0 [simp]: "round64 0 = Num 0"
  by (simp add: round64_def)

lemma round64_1 [simp]: "round64 1 = Num 1"
  using round64_int[of 1] by simp

lemma js_sub_int:
  "\<bar>m - n\<bar> \<le> 2 ^ 53 \<Longrightarrow> js_sub (Num (of_int m)) (Num (of_int n)) = Num (of_int (m - n))"
  using round64_int[of "m - n"] by simp

lemma parseInt_exact:
  "exactInteger v \<Longrightarrow> parseInt v = (case v of None \<Rightarrow> NaN | Some n \<Rightarrow> Num (of_int n))"
  by (simp add: exactInteger_def parseInt_def round64_int split: option.splits)

lemma validateConfiguration_integers:
  assumes "\<bar>r0\<bar> \<le> 2 ^ 53"
    and "r = (if r0 < 1 then 5 else r0)" and "a = (if a0 < 1 then 2 else a0)"
  shows "validateConfiguration
           \<lparr>maxPinFailuresBeforeRevoke = Num (of_int r0), maxPinFailuresBeforeAlert = Num (of_int a0)\<rparr>
         = (\<lparr>maxPinFailuresBeforeRevoke = Num (of_int r),
             maxPinFailuresBeforeAlert = Num (of_int (if r \<le> a then max 1 (r - 1) else a))\<rparr>,
            (if r0 < 1 then [RevokeBelowOne] else []) @ (if a0 < 1 then [AlertBelowOne] else [])
              @ (if r \<le> a then [AlertNotBelowRevoke] else []))"
proof -
  have r: "1 \<le> r" "r \<le> 2 ^ 53" using assms by (auto split: if_splits)
  then have "\<bar>r - 1\<bar> \<le> 2 ^ 53" by simp
  from js_sub_int[OF this] have sub: "js_sub (Num (of_int r)) (Num 1) = Num (of_int (r - 1))"
    by simp
  have mx: "js_max (Num 1) (Num (of_int (r - 1))) = Num (of_int (max 1 (r - 1)))"
    by (simp add: js_max_def max_def)
  have five: "Num 5 = Num (of_int 5)" "Num 2 = Num (of_int 2)" by simp_all
  show ?thesis
    unfolding validateConfiguration_def assms(2,3)
    using sub mx unfolding assms(2)
    by (auto simp add: Let_def js_ge_def simp del: js_sub.simps)
qed

text \<open>
  Amounts with cents are not doubles, and their differences are rounded: a balance of
  0.30 debited by 0.10 is 0.19999999999999998, which is below a following amount of 0.20.
\<close>

lemma floor_rat_numeral: "\<lfloor>numeral a / numeral b :: rat\<rfloor> = numeral a div numeral b"
  using floor_divide_of_int_eq[of "numeral a" "numeral b", where ?'a = rat] by simp

lemma ceiling_rat_numeral:
  "\<lceil>numeral a / numeral b :: rat\<rceil> = - ((- numeral a) div numeral b)"
  using floor_divide_of_int_eq[of "- numeral a" "numeral b", where ?'a = rat]
  by (simp add: ceiling_def)

lemmas round64_eval = round64_def binaryExponent_def roundHalfEven_def pow2_def compute_bitlen
  Let_def floor_rat_numeral ceiling_rat_numeral

lemma cents_are_rounded:
  "round64 (3 / 10) = Num (5404319552844595 / 2 ^ 54)
   \<and> round64 (1 / 10) = Num (3602879701896397 / 2 ^ 55)
   \<and> round64 (2 / 10) = Num (7205759403792794 / 2 ^ 55)
   \<and> js_sub (Num (5404319552844595 / 2 ^ 54)) (Num (3602879701896397 / 2 ^ 55))
       = Num (7205759403792793 / 2 ^ 55)
   \<and> js_lt (Num (7205759403792793 / 2 ^ 55)) (Num (7205759403792794 / 2 ^ 55))"
  by (simp add: round64_eval)

section \<open>Properties of the security configuration\<close>

lemmas example_defs = exampleRequest_def exampleAccount_def exampleEnv_def exampleState_def
  recordAt_def fourPinFailures_def defaultConfig_def noCredentialState_def claimsMissingEnv_def
  unknownHolderEnv_def completedState_def lateEnv_def secondEnv_def firstResumed_def
  secondResumed_def pendingState_def twoPinFailures_def ledgerWriteFails_def

lemmas ledger_defs = recordPaymentAttempt_def withAccount_def attemptFor_def noData_def
  validAttemptStatuses_def or_null_def num_or_null_def num_falsy_def or_default_def
  falsy_def getAllPayments_def
  getConsecutivePinFailures_def getPaymentsByAccountId_def mostRecentFirst_def

lemmas config_defs = newSecurityConfig_def validateConfiguration_def or_default_def
  num_falsy_def parseInt_def js_ge_def js_max_def ofCount_def

text \<open>
  C7, as the specification states it, fails: with \<^verbatim>\<open>MAX_PIN_FAILURES_BEFORE_REVOKE=1\<close>
  (and the alert variable unset) the alert threshold 2 is not below the revoke threshold
  1, and \<^verbatim>\<open>Math.max(1, 1 - 1)\<close> sets it to 1: both thresholds are 1 after initialisation,
  so the alert threshold is neither below the revoke threshold nor equal to it minus one.
\<close>

theorem C7_revoke_one_counterexample:
  "newSecurityConfig (Some 1) None
     = (\<lparr>maxPinFailuresBeforeRevoke = Num 1, maxPinFailuresBeforeAlert = Num 1\<rparr>,
        [AlertNotBelowRevoke])
   \<and> \<not> js_lt (maxPinFailuresBeforeAlert (fst (newSecurityConfig (Some 1) None)))
              (maxPinFailuresBeforeRevoke (fst (newSecurityConfig (Some 1) None)))"
  by (simp add: config_defs)

text \<open>
  Beyond \<open>2 ^ 53\<close> the subtraction \<^verbatim>\<open>revoke - 1\<close> is rounded: with both variables set to
  \<open>2 ^ 54\<close> it gives \<open>2 ^ 54\<close> again, and the alert threshold ends equal to the revoke
  threshold.
\<close>

lemma thresholds_beyond_exact_integers:
  "newSecurityConfig (Some (2 ^ 54)) (Some (2 ^ 54))
     = (\<lparr>maxPinFailuresBeforeRevoke = Num (2 ^ 54), maxPinFailuresBeforeAlert = Num (2 ^ 54)\<rparr>,
        [AlertNotBelowRevoke])"
proof -
  have a: "round64 (of_int (2 ^ 54)) = Num (2 ^ 54)"
    using round64_exact[of "of_int (2 ^ 54)" "2 ^ 52" 2] by (simp add: pow2_def)
  have b: "round64 (2 ^ 54 - 1) = Num (2 ^ 54)" by (simp add: round64_eval)
  show ?thesis using a b
    by (simp add: config_defs del: of_int_power of_int_numeral)
qed

text \<open>
  C7, amended: for supplied values of magnitude up to \<open>2 ^ 53\<close> (or none), the thresholds
  after initialisation are integers with \<open>1 \<le> alert \<le> revoke\<close>, and \<open>alert < revoke\<close> unless
  the revoke threshold is 1. The revoke threshold is the supplied value, or 5 when that is
  missing, 0 or negative. When the alert value (2 when missing or below 1) is not below
  it, the alert threshold becomes \<open>max 1 (revoke - 1)\<close> and the warning is issued;
  otherwise the alert value is kept without that warning. Initialisation has no failing
  branch.
\<close>

theorem C7_thresholds_after_initialisation:
  assumes "newSecurityConfig envRevoke envAlert = (c, w)"
    and "exactInteger envRevoke" and "exactInteger envAlert"
    and "r = (case envRevoke of None \<Rightarrow> 5 | Some n \<Rightarrow> if n < 1 then 5 else n)"
    and "a = (case envAlert of None \<Rightarrow> 2 | Some n \<Rightarrow> if n < 1 then 2 else n)"
  shows "\<exists>t. maxPinFailuresBeforeRevoke c = Num (of_int r)
          \<and> maxPinFailuresBeforeAlert c = Num (of_int t)
          \<and> 1 \<le> t \<and> t \<le> r \<and> (r \<noteq> 1 \<longrightarrow> t < r)
          \<and> (r \<le> a \<longrightarrow> t = max 1 (r - 1) \<and> AlertNotBelowRevoke \<in> set w)
          \<and> (a < r \<longrightarrow> t = a \<and> AlertNotBelowRevoke \<notin> set w)"
proof -
  define r0 where "r0 = (case envRevoke of None \<Rightarrow> 5 | Some n \<Rightarrow> if n = 0 then 5 else n)"
  define a0 where "a0 = (case envAlert of None \<Rightarrow> 2 | Some n \<Rightarrow> if n = 0 then 2 else n)"
  have r0: "or_default (parseInt envRevoke) (Num 5) = Num (of_int r0)"
    using parseInt_exact[OF assms(2)]
    by (simp add: r0_def or_default_def num_falsy_def split: option.splits)
  have a0: "or_default (parseInt envAlert) (Num 2) = Num (of_int a0)"
    using parseInt_exact[OF assms(3)]
    by (simp add: a0_def or_default_def num_falsy_def split: option.splits)
  have b: "\<bar>r0\<bar> \<le> 2 ^ 53"
    using assms(2) by (simp add: r0_def exactInteger_def split: option.splits)
  have r: "r = (if r0 < 1 then 5 else r0)"
    unfolding assms(4) r0_def by (simp split: option.splits)
  have a: "a = (if a0 < 1 then 2 else a0)"
    unfolding assms(5) a0_def by (simp split: option.splits)
  define t where "t = (if r \<le> a then max 1 (r - 1) else a)"
  have cw: "c = \<lparr>maxPinFailuresBeforeRevoke = Num (of_int r),
                 maxPinFailuresBeforeAlert = Num (of_int t)\<rparr>"
    "w = (if r0 < 1 then [RevokeBelowOne] else []) @ (if a0 < 1 then [AlertBelowOne] else [])
              @ (if r \<le> a then [AlertNotBelowRevoke] else [])"
    using assms(1) validateConfiguration_integers[OF b r a]
    unfolding newSecurityConfig_def r0 a0 t_def by simp_all
  have r1: "1 \<le> r" "1 \<le> a" unfolding r a by simp_all
  have "maxPinFailuresBeforeRevoke c = Num (of_int r)
          \<and> maxPinFailuresBeforeAlert c = Num (of_int t)
          \<and> 1 \<le> t \<and> t \<le> r \<and> (r \<noteq> 1 \<longrightarrow> t < r)
          \<and> (r \<le> a \<longrightarrow> t = max 1 (r - 1) \<and> AlertNotBelowRevoke \<in> set w)
          \<and> (a < r \<longrightarrow> t = a \<and> AlertNotBelowRevoke \<notin> set w)"
    using r1 unfolding cw t_def by auto
  then show ?thesis ..
qed

theorem C7_thresholds_witness:
  "newSecurityConfig (Some 3) (Some 7)
     = (\<lparr>maxPinFailuresBeforeRevoke = Num 3, maxPinFailuresBeforeAlert = Num 2\<rparr>,
        [AlertNotBelowRevoke])
   \<and> exactInteger (Some 3) \<and> exactInteger (Some 7)
   \<and> (\<exists>t. Num 2 = Num (of_int t) \<and> 1 \<le> t \<and> t < 3 \<and> t = max 1 (3 - 1))"
proof -
  have cfg: "newSecurityConfig (Some 3) (Some 7)
     = (\<lparr>maxPinFailuresBeforeRevoke = Num 3, maxPinFailuresBeforeAlert = Num 2\<rparr>,
        [AlertNotBelowRevoke])"
    by (simp add: config_defs)
  have ex: "exactInteger (Some 3)" "exactInteger (Some 7)" by (simp_all add: exactInteger_def)
  from C7_thresholds_after_initialisation[OF cfg ex, of 3 7]
  have "\<exists>t. Num 2 = Num (of_int t) \<and> 1 \<le> t \<and> t < 3 \<and> t = max 1 (3 - 1)"
    by auto
  with cfg ex show ?thesis by (simp only: simp_thms)
qed

text \<open>
  The risk level of \<^verbatim>\<open>SecurityConfig.getRiskLevel\<close> is the one the specification
  describes, for integer thresholds with \<open>1 \<le> alert \<le> revoke\<close> as initialisation leaves
  them.
\<close>

lemma ceiling_half: "\<lceil>rat_of_int a / 2\<rceil> = (a + 1) div 2"
  by linarith

lemma getRiskLevel_classes:
  assumes "maxPinFailuresBeforeAlert cfg = Num (of_int a)"
    and "maxPinFailuresBeforeRevoke cfg = Num (of_int r)"
    and "1 \<le> a" and "a \<le> r" and "a < 2 ^ 53"
  shows "(getRiskLevel cfg n = ''CRITICAL'' \<longleftrightarrow> r \<le> n)
       \<and> (getRiskLevel cfg n = ''HIGH'' \<longleftrightarrow> a \<le> n \<and> n < r)
       \<and> (getRiskLevel cfg n = ''MEDIUM'' \<longleftrightarrow> \<lceil>rat_of_int a / 2\<rceil> \<le> n \<and> n < a)
       \<and> (getRiskLevel cfg n = ''LOW'' \<longleftrightarrow> n < \<lceil>rat_of_int a / 2\<rceil>)"
proof -
  define m where "m = \<lceil>rat_of_int a / 2\<rceil>"
  have m: "m \<le> a"
    using assms(3) unfolding m_def ceiling_half by linarith
  have h: "js_ceil (js_half (Num (of_int a))) = Num (of_int m)"
    using round64_half[of a] assms(3,5) by (simp add: js_half_def js_ceil_def m_def)
  have g: "getRiskLevel cfg n =
     (if r \<le> n then ''CRITICAL''
      else if a \<le> n then ''HIGH''
      else if m \<le> n then ''MEDIUM'' else ''LOW'')"
    unfolding getRiskLevel_def assms(1,2) h by (simp add: js_ge_def ofCount_def)
  show ?thesis
    unfolding g m_def[symmetric] using m assms(4) by (simp; linarith)
qed

text \<open>
  C8: the risk level is not the same wherever it is reported. For an account with five
  consecutive PIN failures and the default thresholds (alert 2, revoke 5),
  \<^verbatim>\<open>SecurityConfig.getRiskLevel\<close> says CRITICAL, while \<^verbatim>\<open>PaymentService.getSecurityStatistics\<close>
  compares the same count with the literals 4 and 2 and says HIGH.
\<close>

theorem C8_statistics_risk_level_differs:
  "getConsecutivePinFailures (recordAt 5 ''failed_pin'' fourPinFailures) ''acc_1'' = 5
   \<and> getRiskLevel defaultConfig 5 = ''CRITICAL''
   \<and> stat_riskLevel (getSecurityStatistics (recordAt 5 ''failed_pin'' fourPinFailures) ''acc_1'')
       = ''HIGH''"
  by (simp add: example_defs ledger_defs config_defs getRiskLevel_def getSecurityStatistics_def Let_def)

section \<open>Properties of the attempt ledger\<close>



text \<open>What \<^verbatim>\<open>recordPaymentAttempt\<close> does for a request identifier and a status it accepts.\<close>

lemma recordPaymentAttempt_appends:
  assumes "pd_paymentRequestId d = Some rid" and "rid \<noteq> []"
    and "pd_status d = Some st" and "st \<in> set validAttemptStatuses"
  shows "\<exists>row. recordPaymentAttempt e d s =
            (s\<lparr>payments := payments s @ [row]\<rparr>,
             if saveSucceeds e SaveAttempts then Inr row else Inl ''Error saving payments data'')
          \<and> att_status row = st \<and> att_paymentRequestId row = rid
          \<and> att_timestamp row = now e
          \<and> att_accountId row = or_null (pd_accountId d)
          \<and> att_errorReason row = or_null (pd_errorReason d)
          \<and> att_errorDetails row = pd_errorDetails d"
proof -
  define row where "row = last (payments (fst (recordPaymentAttempt e d s)))"
  have "st \<noteq> []" using assms(4) by (auto simp add: validAttemptStatuses_def)
  then have "recordPaymentAttempt e d s =
            (s\<lparr>payments := payments s @ [row]\<rparr>,
             if saveSucceeds e SaveAttempts then Inr row else Inl ''Error saving payments data'')
          \<and> att_status row = st \<and> att_paymentRequestId row = rid
          \<and> att_timestamp row = now e
          \<and> att_accountId row = or_null (pd_accountId d)
          \<and> att_errorReason row = or_null (pd_errorReason d)
          \<and> att_errorDetails row = pd_errorDetails d"
    unfolding row_def using assms
    by (simp add: recordPaymentAttempt_def Let_def getAllPayments_def)
  then show ?thesis by (rule exI)
qed






section \<open>What the service operations change\<close>

lemma findIndex_Some:
  "findIndex P xs = Some i \<Longrightarrow> i < length xs \<and> P (xs ! i) \<and> find P xs = Some (xs ! i)"
  by (induction xs arbitrary: i) (auto split: if_splits option.splits)

lemma findIndex_None: "findIndex P xs = None \<longleftrightarrow> find P xs = None"
  by (induction xs) (auto split: option.splits)

lemma find_update_first:
  "findIndex P xs = Some i \<Longrightarrow> P y \<Longrightarrow> find P (xs[i := y]) = Some y"
  by (induction xs arbitrary: i) (auto split: if_splits option.splits)

lemma find_update_other:
  "i < length xs \<Longrightarrow> \<not> Q (xs ! i) \<Longrightarrow> \<not> Q y \<Longrightarrow> find Q (xs[i := y]) = find Q xs"
  by (induction xs arbitrary: i) (auto simp add: nth_Cons split: nat.splits)

lemma getById_cong:
  "paymentRequests s1 = paymentRequests s \<Longrightarrow> getPaymentRequestById s1 pid = getPaymentRequestById s pid"
  by (simp add: getPaymentRequestById_def getAllPaymentRequests_def)

lemma getById_id: "getPaymentRequestById s pid = Some r \<Longrightarrow> req_id r = pid"
  unfolding getPaymentRequestById_def by (auto simp add: find_Some_iff)

lemma update_frame:
  "payments (fst (updatePaymentRequestStatus e site pid st ad s)) = payments s
   \<and> accounts (fst (updatePaymentRequestStatus e site pid st ad s)) = accounts s
   \<and> outbox (fst (updatePaymentRequestStatus e site pid st ad s)) = outbox s"
  by (simp add: updatePaymentRequestStatus_def Let_def split: option.splits)

lemma update_requests_cong:
  "paymentRequests s1 = paymentRequests s \<Longrightarrow>
   paymentRequests (fst (updatePaymentRequestStatus e site pid st ad s1))
     = paymentRequests (fst (updatePaymentRequestStatus e site pid st ad s))"
  by (simp add: updatePaymentRequestStatus_def getAllPaymentRequests_def Let_def split: option.splits)

lemma update_other_request:
  assumes "pid \<noteq> pid'"
  shows "getPaymentRequestById (fst (updatePaymentRequestStatus e site pid st ad s)) pid'
           = getPaymentRequestById s pid'"
proof (cases "findIndex (\<lambda>req. req_id req = pid) (paymentRequests s)")
  case None
  then show ?thesis
    by (simp add: updatePaymentRequestStatus_def getAllPaymentRequests_def)
next
  case (Some i)
  from findIndex_Some[OF Some] have i: "i < length (paymentRequests s)"
    and id: "req_id (paymentRequests s ! i) = pid" by auto
  show ?thesis
    using Some i id assms
    by (simp add: updatePaymentRequestStatus_def getAllPaymentRequests_def Let_def
                  getPaymentRequestById_def find_update_other)
qed

lemma update_this_request:
  assumes "getPaymentRequestById s pid = Some r" and "st \<in> set validStatuses"
  shows "getPaymentRequestById (fst (updatePaymentRequestStatus e site pid st ad s)) pid
           = Some (r\<lparr>req_status := st, req_updatedAt := now e, req_extra := ad @ req_extra r\<rparr>)
         \<and> snd (updatePaymentRequestStatus e site pid st ad s)
           = (if saveSucceeds e site
              then Inr (r\<lparr>req_status := st, req_updatedAt := now e, req_extra := ad @ req_extra r\<rparr>)
              else Inl ''Error saving payments data'')"
proof (cases "findIndex (\<lambda>req. req_id req = pid) (paymentRequests s)")
  case None
  then show ?thesis using assms(1)
    by (simp add: findIndex_None getPaymentRequestById_def getAllPaymentRequests_def)
next
  case (Some i)
  from findIndex_Some[OF Some] assms(1) have r: "paymentRequests s ! i = r"
    by (simp add: getPaymentRequestById_def getAllPaymentRequests_def)
  from findIndex_Some[OF Some] r have rid: "req_id r = pid" by auto
  show ?thesis
    using Some r assms(2) rid
    by (simp add: updatePaymentRequestStatus_def getAllPaymentRequests_def Let_def
                  getPaymentRequestById_def find_update_first)
qed

lemma update_Inr:
  assumes "updatePaymentRequestStatus e site pid st ad s = (s1, Inr r1)"
  shows "getPaymentRequestById s1 pid = Some r1 \<and> req_status r1 = st"
proof (cases "findIndex (\<lambda>req. req_id req = pid) (paymentRequests s)")
  case None
  then show ?thesis using assms
    by (simp add: updatePaymentRequestStatus_def getAllPaymentRequests_def)
next
  case (Some i)
  from findIndex_Some[OF Some] have "req_id (paymentRequests s ! i) = pid" by auto
  then show ?thesis
    using Some assms
    by (auto simp add: updatePaymentRequestStatus_def getAllPaymentRequests_def Let_def
                  getPaymentRequestById_def find_update_first split: if_splits)
qed

lemma record_frame:
  "paymentRequests (fst (recordPaymentAttempt e d s)) = paymentRequests s
   \<and> accounts (fst (recordPaymentAttempt e d s)) = accounts s
   \<and> outbox (fst (recordPaymentAttempt e d s)) = outbox s"
  by (simp add: recordPaymentAttempt_def Let_def split: option.splits)

lemma balance_frame:
  "paymentRequests (fst (updateAccountBalance e a b t s)) = paymentRequests s
   \<and> payments (fst (updateAccountBalance e a b t s)) = payments s
   \<and> outbox (fst (updateAccountBalance e a b t s)) = outbox s"
  by (simp add: updateAccountBalance_def Let_def split: option.splits)

lemma security_frame:
  "paymentRequests (securityResponse cfg e a r s) = paymentRequests s
   \<and> payments (securityResponse cfg e a r s) = payments s
   \<and> accounts (securityResponse cfg e a r s) = accounts s"
  by (simp add: securityResponse_def Let_def sendSecurityAlertForPayment_def
        sendCredentialRevokedNotification_def split: option.splits)

section \<open>Properties of PIN verification\<close>

lemmas handler_defs = verifyPINAndCompletePayment_def verifyPIN_checks_def verifyPIN_resume_def
  verifyPIN_afterCheck_def verifyPIN_catch_def resolveAccount_def completePayment_def
  securityResponse_def findAccountByCredentialData_def getAllAccounts_def
  getPaymentRequestById_def getAllPaymentRequests_def updatePaymentRequestStatus_def
  updateAccountBalance_def proofRequestId_def validStatuses_def
  sendSecurityAlertForPayment_def sendCredentialRevokedNotification_def
  shouldTriggerAlert_def shouldTriggerRevocation_def processPayment_def getPaymentStatus_def
  getPaymentStatus_proof_def liveRequest_def expiredAttempt_def

lemma fst_case_result:
  "fst (case p of (s1, x) \<Rightarrow> (case x of Inl a \<Rightarrow> (s1, f s1 a) | Inr b \<Rightarrow> (s1, g s1 b))) = fst p"
  by (cases p; cases "snd p"; simp)

lemma resolveAccount_frame:
  "paymentRequests (fst (resolveAccount e pid pr s)) = paymentRequests s
   \<and> accounts (fst (resolveAccount e pid pr s)) = accounts s
   \<and> outbox (fst (resolveAccount e pid pr s)) = outbox s"
  by (simp add: resolveAccount_def record_frame fst_case_result
           split: sum.splits list.splits option.splits)

lemma resolveAccount_Inr:
  assumes "resolveAccount e pid pr s = (s1, Inr a)"
  shows "s1 = s \<and> procivisConfigured e"
proof -
  have "snd (resolveAccount e pid pr s) = Inr a \<longrightarrow>
          fst (resolveAccount e pid pr s) = s \<and> procivisConfigured e"
    by (simp add: resolveAccount_def split: sum.splits list.splits option.splits prod.splits)
  with assms show ?thesis by simp
qed

text \<open>
  The handler on a request in \<open>processing\<close> when the PIN differs from the PIN of the
  account: the \<open>failed_pin\<close> row is pushed onto the ledger; when its write fails, the
  handler ends in its \<^verbatim>\<open>catch\<close> with the row in memory and the response 500.
\<close>

lemma wrong_pin:
  assumes pid: "pid \<noteq> []" and p: "p \<noteq> []"
    and pr: "getPaymentRequestById s pid = Some pr" "req_status pr = ''processing''"
    and acc: "resolveAccount e pid pr s = (s1, Inr account)"
    and wrong: "p \<noteq> acc_pin account"
  shows "\<exists>row. verifyPINAndCompletePayment cfg e pid (Some p) s =
            (if saveSucceeds e SaveAttempts
             then (securityResponse cfg e account pr (s\<lparr>payments := payments s @ [row]\<rparr>),
                   Failure 400 ''Invalid PIN. Please check and try again.'')
             else (s\<lparr>payments := payments s @ [row]\<rparr>, Failure 500 ''Error saving payments data''))
          \<and> att_status row = ''failed_pin'' \<and> att_paymentRequestId row = pid
          \<and> att_timestamp row = now e
          \<and> att_accountId row = or_null (Some (acc_id account))
          \<and> att_errorReason row = Some ''Invalid PIN''"
proof -
  let ?d = "(withAccount account (attemptFor pid pr ''failed_pin''))
                     \<lparr>pd_errorReason := Some ''Invalid PIN'',
                      pd_errorDetails := Some PinVerificationFailed,
                      pd_clientIp := clientIp e,
                      pd_userAgent := userAgent e\<rparr>"
  have "pd_paymentRequestId ?d = Some pid" "pd_status ?d = Some ''failed_pin''"
    "pd_accountId ?d = Some (acc_id account)" "pd_errorReason ?d = Some ''Invalid PIN''"
    by (simp_all add: withAccount_def attemptFor_def noData_def)
  moreover have "''failed_pin'' \<in> set validAttemptStatuses"
    by (simp add: validAttemptStatuses_def)
  ultimately obtain row where row: "recordPaymentAttempt e ?d s
        = (s\<lparr>payments := payments s @ [row]\<rparr>,
           if saveSucceeds e SaveAttempts then Inr row else Inl ''Error saving payments data'')"
      "att_status row = ''failed_pin''" "att_paymentRequestId row = pid"
      "att_timestamp row = now e" "att_accountId row = or_null (Some (acc_id account))"
      "att_errorReason row = Some ''Invalid PIN''"
    using recordPaymentAttempt_appends[of ?d pid "''failed_pin''" e s] pid
    by (auto simp add: or_null_def falsy_def)
  from resolveAccount_Inr[OF acc] acc have acc': "resolveAccount e pid pr s = (s, Inr account)"
    by simp
  have "verifyPINAndCompletePayment cfg e pid (Some p) s =
            (if saveSucceeds e SaveAttempts
             then (securityResponse cfg e account pr (s\<lparr>payments := payments s @ [row]\<rparr>),
                   Failure 400 ''Invalid PIN. Please check and try again.'')
             else (s\<lparr>payments := payments s @ [row]\<rparr>, Failure 500 ''Error saving payments data''))"
    using pid p pr acc' wrong row(1)
    by (simp add: verifyPINAndCompletePayment_def verifyPIN_checks_def verifyPIN_resume_def
                  verifyPIN_afterCheck_def verifyPIN_catch_def)
  with row show ?thesis by blast
qed

text \<open>
  C10: when the PIN is missing (absent or empty) or no request has the given
  identifier, the handler answers with a failure (400 or 404) and the state it leaves is
  the state it found: no ledger row, no request, no account and no notification changes.
\<close>

theorem C10_rejected_before_any_mutation:
  assumes "falsy pin \<or> getPaymentRequestById s paymentId = None"
  shows "\<exists>r. verifyPINAndCompletePayment cfg e paymentId pin s = (s, r)
           \<and> r \<in> set [Failure 400 ''Payment ID is required'', Failure 400 ''PIN is required'',
                        Failure 404 ''Payment request not found'']"
  using assms
  by (auto simp add: verifyPINAndCompletePayment_def verifyPIN_checks_def falsy_def
           split: option.splits)

theorem C10_rejected_witness:
  "verifyPINAndCompletePayment defaultConfig exampleEnv ''pay_1'' None exampleState
     = (exampleState, Failure 400 ''PIN is required'')
   \<and> getPaymentRequestById exampleState ''pay_9'' = None
   \<and> verifyPINAndCompletePayment defaultConfig exampleEnv ''pay_9'' (Some ''123456'') exampleState
     = (exampleState, Failure 404 ''Payment request not found'')"
  using C10_rejected_before_any_mutation [of None exampleState "''pay_1''" defaultConfig exampleEnv]
    C10_rejected_before_any_mutation
      [of "Some ''123456''" exampleState "''pay_9''" defaultConfig exampleEnv]
  by (simp add: example_defs handler_defs falsy_def)

text \<open>
  C5, as the specification states it, fails when the write of the \<open>failed_pin\<close> row
  fails: \<^verbatim>\<open>recordPaymentAttempt\<close> throws, the handler ends in its \<^verbatim>\<open>catch\<close> with the response
  500, and the thresholds are never looked at. Below, the fifth consecutive failure of the
  example account is in the ledger and reaches both thresholds, but no alert is sent and no
  revocation is requested.
\<close>

theorem C5_failed_write_counterexample:
  "snd (verifyPINAndCompletePayment defaultConfig ledgerWriteFails ''pay_1'' (Some ''000000'')
          fourPinFailures) = Failure 500 ''Error saving payments data''
   \<and> map att_status (payments (fst (verifyPINAndCompletePayment defaultConfig ledgerWriteFails
          ''pay_1'' (Some ''000000'') fourPinFailures)))
       = [''failed_pin'', ''failed_pin'', ''failed_pin'', ''failed_pin'', ''failed_pin'']
   \<and> getConsecutivePinFailures
         (fst (verifyPINAndCompletePayment defaultConfig ledgerWriteFails ''pay_1''
                 (Some ''000000'') fourPinFailures)) ''acc_1'' = 5
   \<and> shouldTriggerAlert defaultConfig 5
   \<and> shouldTriggerRevocation defaultConfig 5
   \<and> outbox (fst (verifyPINAndCompletePayment defaultConfig ledgerWriteFails ''pay_1''
                   (Some ''000000'') fourPinFailures)) = []"
  by (simp add: example_defs handler_defs ledger_defs config_defs Let_def)

text \<open>
  C5, amended: a request in \<open>processing\<close>, an account resolved from the proof claims, and
  a PIN that is not the PIN of that account. Then the requests (so also the status
  \<open>processing\<close> of this one) and the accounts are unchanged, and exactly one row is appended
  to the ledger, a \<open>failed_pin\<close> row for this request and account. Let \<open>c\<close> be the
  consecutive failures of the account on the ledger that holds the new row. When the write
  of the row succeeds, the thresholds are compared with \<open>c\<close>: the alert is sent if and only
  if \<open>c\<close> has reached the alert threshold, the revocation of the credential is requested
  if and only if \<open>c\<close> has reached the revoke threshold and the account has a credential
  identifier, and the handler answers 400. When the write fails, the handler answers 500
  and calls no collaborator.
\<close>

theorem C5_wrong_pin_keeps_processing:
  assumes "paymentId \<noteq> []" and "pin \<noteq> []"
    and "getPaymentRequestById s paymentId = Some paymentRequest"
    and "req_status paymentRequest = ''processing''"
    and "resolveAccount e paymentId paymentRequest s = (s1, Inr account)"
    and "pin \<noteq> acc_pin account"
    and "s' = fst (verifyPINAndCompletePayment cfg e paymentId (Some pin) s)"
    and "c = getConsecutivePinFailures s' (acc_id account)"
  shows "\<exists>row. paymentRequests s' = paymentRequests s
          \<and> getPaymentRequestById s' paymentId = Some paymentRequest
          \<and> accounts s' = accounts s
          \<and> payments s' = payments s @ [row]
          \<and> att_status row = ''failed_pin'' \<and> att_paymentRequestId row = paymentId
          \<and> att_accountId row = or_null (Some (acc_id account))
          \<and> (saveSucceeds e SaveAttempts \<longrightarrow>
                snd (verifyPINAndCompletePayment cfg e paymentId (Some pin) s)
                  = Failure 400 ''Invalid PIN. Please check and try again.''
                \<and> outbox s'
                  = outbox s
                    @ (if js_ge (ofCount c) (maxPinFailuresBeforeAlert cfg)
                       then [SecurityAlert (acc_id account) (req_id paymentRequest) c
                               (if \<not> emailConfigured e then NotConfigured
                                else if alertEmailSucceeds e then Sent else SendFailed)]
                       else [])
                    @ (if js_ge (ofCount c) (maxPinFailuresBeforeRevoke cfg)
                       then (case acc_credentialId account of
                               None \<Rightarrow> []
                             | Some credentialId \<Rightarrow>
                                 if credentialId = [] then []
                                 else if revokeSucceeds e
                                 then [RevokeCredential credentialId True,
                                       CredentialRevokedEmail (acc_id account)
                                         (if \<not> emailConfigured e then NotConfigured
                                          else if revokedEmailSucceeds e then Sent
                                          else SendFailed)]
                                 else [RevokeCredential credentialId False,
                                       RevokeFailureLogged credentialId])
                       else []))
          \<and> (\<not> saveSucceeds e SaveAttempts \<longrightarrow>
                snd (verifyPINAndCompletePayment cfg e paymentId (Some pin) s)
                  = Failure 500 ''Error saving payments data''
                \<and> outbox s' = outbox s)"
proof -
  from wrong_pin[OF assms(1-6), of cfg] obtain row where
    v: "verifyPINAndCompletePayment cfg e paymentId (Some pin) s =
            (if saveSucceeds e SaveAttempts
             then (securityResponse cfg e account paymentRequest
                     (s\<lparr>payments := payments s @ [row]\<rparr>),
                   Failure 400 ''Invalid PIN. Please check and try again.'')
             else (s\<lparr>payments := payments s @ [row]\<rparr>, Failure 500 ''Error saving payments data''))"
    and row: "att_status row = ''failed_pin''" "att_paymentRequestId row = paymentId"
      "att_accountId row = or_null (Some (acc_id account))"
    by blast
  let ?s2 = "s\<lparr>payments := payments s @ [row]\<rparr>"
  have frame: "paymentRequests s' = paymentRequests s" "accounts s' = accounts s"
    "payments s' = payments s @ [row]"
    unfolding assms(7) v by (simp_all add: security_frame)
  have g: "getPaymentRequestById s' paymentId = Some paymentRequest"
    using assms(3) frame(1) by (simp add: getPaymentRequestById_def getAllPaymentRequests_def)
  have c: "c = getConsecutivePinFailures ?s2 (acc_id account)"
    unfolding assms(8)
    by (simp add: getConsecutivePinFailures_def getPaymentsByAccountId_def getAllPayments_def
                  frame(3))
  have conf: "procivisConfigured e" using resolveAccount_Inr[OF assms(5)] by simp
  have written: "saveSucceeds e SaveAttempts \<longrightarrow>
                snd (verifyPINAndCompletePayment cfg e paymentId (Some pin) s)
                  = Failure 400 ''Invalid PIN. Please check and try again.''
                \<and> outbox s'
                  = outbox s
                    @ (if js_ge (ofCount c) (maxPinFailuresBeforeAlert cfg)
                       then [SecurityAlert (acc_id account) (req_id paymentRequest) c
                               (if \<not> emailConfigured e then NotConfigured
                                else if alertEmailSucceeds e then Sent else SendFailed)]
                       else [])
                    @ (if js_ge (ofCount c) (maxPinFailuresBeforeRevoke cfg)
                       then (case acc_credentialId account of
                               None \<Rightarrow> []
                             | Some credentialId \<Rightarrow>
                                 if credentialId = [] then []
                                 else if revokeSucceeds e
                                 then [RevokeCredential credentialId True,
                                       CredentialRevokedEmail (acc_id account)
                                         (if \<not> emailConfigured e then NotConfigured
                                          else if revokedEmailSucceeds e then Sent
                                          else SendFailed)]
                                 else [RevokeCredential credentialId False,
                                       RevokeFailureLogged credentialId])
                       else [])"
    unfolding assms(7) v
    by (simp add: securityResponse_def c[symmetric] Let_def conf shouldTriggerAlert_def
                  shouldTriggerRevocation_def sendSecurityAlertForPayment_def
                  sendCredentialRevokedNotification_def split: option.splits)
  have failed: "\<not> saveSucceeds e SaveAttempts \<longrightarrow>
                snd (verifyPINAndCompletePayment cfg e paymentId (Some pin) s)
                  = Failure 500 ''Error saving payments data''
                \<and> outbox s' = outbox s"
    unfolding assms(7) v by simp
  from frame g row written failed show ?thesis
    by (intro exI[of _ row]) (simp only: simp_thms)
qed

theorem C5_wrong_pin_witness:
  "getPaymentRequestById twoPinFailures ''pay_1'' = Some exampleRequest
   \<and> req_status exampleRequest = ''processing''
   \<and> resolveAccount (exampleEnv\<lparr>now := 3\<rparr>) ''pay_1'' exampleRequest twoPinFailures
       = (twoPinFailures, Inr exampleAccount)
   \<and> ''000000'' \<noteq> acc_pin exampleAccount
   \<and> saveSucceeds (exampleEnv\<lparr>now := 3\<rparr>) SaveAttempts
   \<and> getConsecutivePinFailures
        (fst (verifyPINAndCompletePayment defaultConfig (exampleEnv\<lparr>now := 3\<rparr>) ''pay_1''
                (Some ''000000'') twoPinFailures)) (acc_id exampleAccount) = 3
   \<and> snd (verifyPINAndCompletePayment defaultConfig (exampleEnv\<lparr>now := 3\<rparr>) ''pay_1''
            (Some ''000000'') twoPinFailures)
       = Failure 400 ''Invalid PIN. Please check and try again.''
   \<and> outbox (fst (verifyPINAndCompletePayment defaultConfig (exampleEnv\<lparr>now := 3\<rparr>) ''pay_1''
                   (Some ''000000'') twoPinFailures))
       = [SecurityAlert ''acc_1'' ''pay_1'' 3 Sent]
   \<and> getPaymentRequestById
        (fst (verifyPINAndCompletePayment defaultConfig (exampleEnv\<lparr>now := 3\<rparr>) ''pay_1''
                (Some ''000000'') twoPinFailures)) ''pay_1'' = Some exampleRequest
   \<and> accounts (fst (verifyPINAndCompletePayment defaultConfig (exampleEnv\<lparr>now := 3\<rparr>) ''pay_1''
                     (Some ''000000'') twoPinFailures)) = accounts twoPinFailures
   \<and> \<not> saveSucceeds ledgerWriteFails SaveAttempts
   \<and> snd (verifyPINAndCompletePayment defaultConfig ledgerWriteFails ''pay_1''
            (Some ''000000'') twoPinFailures) = Failure 500 ''Error saving payments data''
   \<and> outbox (fst (verifyPINAndCompletePayment defaultConfig ledgerWriteFails ''pay_1''
                   (Some ''000000'') twoPinFailures)) = outbox twoPinFailures"
proof -
  let ?e = "exampleEnv\<lparr>now := 3\<rparr>"
  let ?V = "verifyPINAndCompletePayment defaultConfig ?e ''pay_1'' (Some ''000000'')
              twoPinFailures"
  let ?W = "verifyPINAndCompletePayment defaultConfig ledgerWriteFails ''pay_1''
              (Some ''000000'') twoPinFailures"
  have h1: "''pay_1'' \<noteq> []" "''000000'' \<noteq> []" by simp_all
  have h3: "getPaymentRequestById twoPinFailures ''pay_1'' = Some exampleRequest"
    by (simp add: example_defs ledger_defs getPaymentRequestById_def getAllPaymentRequests_def
                  Let_def)
  have h4: "req_status exampleRequest = ''processing''" by (simp add: exampleRequest_def)
  have h5: "resolveAccount ?e ''pay_1'' exampleRequest twoPinFailures
              = (twoPinFailures, Inr exampleAccount)"
    by (simp add: example_defs handler_defs ledger_defs Let_def)
  have h5': "resolveAccount ledgerWriteFails ''pay_1'' exampleRequest twoPinFailures
              = (twoPinFailures, Inr exampleAccount)"
    by (simp add: example_defs handler_defs ledger_defs Let_def)
  have h6: "''000000'' \<noteq> acc_pin exampleAccount" by (simp add: exampleAccount_def)
  have h7: "saveSucceeds ?e SaveAttempts" by (simp add: exampleEnv_def)
  have h7': "\<not> saveSucceeds ledgerWriteFails SaveAttempts" by (simp add: example_defs)
  have h8: "3 = getConsecutivePinFailures (fst ?V) (acc_id exampleAccount)"
    by (simp add: example_defs handler_defs ledger_defs config_defs Let_def)
  have small: "outbox twoPinFailures = []" "maxPinFailuresBeforeAlert defaultConfig = Num 2"
    "maxPinFailuresBeforeRevoke defaultConfig = Num 5" "acc_id exampleAccount = ''acc_1''"
    "req_id exampleRequest = ''pay_1''" "emailConfigured ?e" "alertEmailSucceeds ?e"
    by (simp_all add: example_defs ledger_defs config_defs Let_def)
  from C5_wrong_pin_keeps_processing[OF h1 h3 h4 h5 h6 refl h8] h7
  have written: "snd ?V = Failure 400 ''Invalid PIN. Please check and try again.''
      \<and> outbox (fst ?V) = [SecurityAlert ''acc_1'' ''pay_1'' 3 Sent]
      \<and> getPaymentRequestById (fst ?V) ''pay_1'' = Some exampleRequest
      \<and> accounts (fst ?V) = accounts twoPinFailures"
    by (auto simp add: small js_ge_def ofCount_def)
  from C5_wrong_pin_keeps_processing[OF h1 h3 h4 h5' h6 refl refl, of defaultConfig] h7'
  have failed: "snd ?W = Failure 500 ''Error saving payments data''
      \<and> outbox (fst ?W) = outbox twoPinFailures"
    by auto
  from h3 h4 h5 h6 h7 h8[symmetric] written h7' failed show ?thesis by (simp only: simp_thms)
qed

text \<open>
  C6, as the specification states it, fails for an account without a credential
  identifier: the revocation is guarded by \<^verbatim>\<open>account.credentialId && isConfigured()\<close>.
  The fifth consecutive PIN failure of such an account reaches the revoke threshold 5;
  the alert is sent and no revocation is requested.
\<close>

theorem C6_no_credential_counterexample:
  "getConsecutivePinFailures
     (fst (verifyPINAndCompletePayment defaultConfig (exampleEnv\<lparr>now := 5\<rparr>) ''pay_1''
             (Some ''000000'') noCredentialState)) ''acc_1'' = 5
   \<and> shouldTriggerRevocation defaultConfig 5
   \<and> outbox (fst (verifyPINAndCompletePayment defaultConfig (exampleEnv\<lparr>now := 5\<rparr>) ''pay_1''
                   (Some ''000000'') noCredentialState))
       = [SecurityAlert ''acc_1'' ''pay_1'' 5 Sent]"
  by (simp add: example_defs handler_defs ledger_defs config_defs Let_def)

text \<open>
  C6, amended: on a failing PIN check whose ledger row is written, let \<open>c\<close> be the
  consecutive failures of the account on the ledger that holds the new row. The calls to
  the collaborators are exactly these, in this order: a security alert with \<open>c\<close> if and
  only if \<open>c\<close> has reached the alert threshold (every time, whatever was sent before);
  then, if and only if \<open>c\<close> has reached the revoke threshold and the account has a
  credential identifier, the revocation of that credential, followed by the revocation
  notice when it succeeded and by a log entry when it failed. The response is the same
  400 whether the mail or the revocation succeed or fail.
\<close>

theorem C6_security_response_on_wrong_pin:
  assumes "paymentId \<noteq> []" and "pin \<noteq> []"
    and "getPaymentRequestById s paymentId = Some paymentRequest"
    and "req_status paymentRequest = ''processing''"
    and "resolveAccount e paymentId paymentRequest s = (s1, Inr account)"
    and "pin \<noteq> acc_pin account"
    and "saveSucceeds e SaveAttempts"
    and "c = getConsecutivePinFailures
               (fst (verifyPINAndCompletePayment cfg e paymentId (Some pin) s)) (acc_id account)"
  shows "snd (verifyPINAndCompletePayment cfg e paymentId (Some pin) s)
           = Failure 400 ''Invalid PIN. Please check and try again.''
       \<and> outbox (fst (verifyPINAndCompletePayment cfg e paymentId (Some pin) s))
           = outbox s
             @ (if js_ge (ofCount c) (maxPinFailuresBeforeAlert cfg)
                then [SecurityAlert (acc_id account) (req_id paymentRequest) c
                        (if \<not> emailConfigured e then NotConfigured
                         else if alertEmailSucceeds e then Sent else SendFailed)]
                else [])
             @ (if js_ge (ofCount c) (maxPinFailuresBeforeRevoke cfg)
                then (case acc_credentialId account of
                        None \<Rightarrow> []
                      | Some credentialId \<Rightarrow>
                          if credentialId = [] then []
                          else if revokeSucceeds e
                          then [RevokeCredential credentialId True,
                                CredentialRevokedEmail (acc_id account)
                                  (if \<not> emailConfigured e then NotConfigured
                                   else if revokedEmailSucceeds e then Sent else SendFailed)]
                          else [RevokeCredential credentialId False,
                                RevokeFailureLogged credentialId])
                else [])"
proof -
  from wrong_pin[OF assms(1-6), of cfg] assms(7) obtain row where
    v: "verifyPINAndCompletePayment cfg e paymentId (Some pin) s =
            (securityResponse cfg e account paymentRequest (s\<lparr>payments := payments s @ [row]\<rparr>),
             Failure 400 ''Invalid PIN. Please check and try again.'')"
    by auto
  let ?s2 = "s\<lparr>payments := payments s @ [row]\<rparr>"
  have c: "c = getConsecutivePinFailures ?s2 (acc_id account)"
    unfolding assms(8) v
    by (simp add: getConsecutivePinFailures_def getPaymentsByAccountId_def getAllPayments_def
                  security_frame)
  have conf: "procivisConfigured e" using resolveAccount_Inr[OF assms(5)] by simp
  show ?thesis
    unfolding v
    by (simp add: securityResponse_def c[symmetric] Let_def conf shouldTriggerAlert_def
                  shouldTriggerRevocation_def sendSecurityAlertForPayment_def
                  sendCredentialRevokedNotification_def split: option.splits)
qed

theorem C6_security_response_witness:
  "getPaymentRequestById fourPinFailures ''pay_1'' = Some exampleRequest
   \<and> resolveAccount (exampleEnv\<lparr>now := 5, revokeSucceeds := False\<rparr>) ''pay_1'' exampleRequest
       fourPinFailures = (fourPinFailures, Inr exampleAccount)
   \<and> getConsecutivePinFailures
       (fst (verifyPINAndCompletePayment defaultConfig (exampleEnv\<lparr>now := 5, revokeSucceeds := False\<rparr>)
               ''pay_1'' (Some ''000000'') fourPinFailures)) (acc_id exampleAccount) = 5
   \<and> snd (verifyPINAndCompletePayment defaultConfig (exampleEnv\<lparr>now := 5, revokeSucceeds := False\<rparr>)
            ''pay_1'' (Some ''000000'') fourPinFailures)
       = Failure 400 ''Invalid PIN. Please check and try again.''
   \<and> outbox (fst (verifyPINAndCompletePayment defaultConfig
                    (exampleEnv\<lparr>now := 5, revokeSucceeds := False\<rparr>)
                    ''pay_1'' (Some ''000000'') fourPinFailures))
       = [SecurityAlert ''acc_1'' ''pay_1'' 5 Sent, RevokeCredential ''cred_1'' False,
          RevokeFailureLogged ''cred_1'']"
proof -
  let ?e = "exampleEnv\<lparr>now := 5, revokeSucceeds := False\<rparr>"
  have h3: "getPaymentRequestById fourPinFailures ''pay_1'' = Some exampleRequest"
    by (simp add: example_defs ledger_defs getPaymentRequestById_def getAllPaymentRequests_def
                  Let_def)
  have h4: "req_status exampleRequest = ''processing''" by (simp add: exampleRequest_def)
  have h5: "resolveAccount ?e ''pay_1'' exampleRequest fourPinFailures
              = (fourPinFailures, Inr exampleAccount)"
    by (simp add: example_defs handler_defs ledger_defs Let_def)
  have h6: "''000000'' \<noteq> acc_pin exampleAccount" by (simp add: exampleAccount_def)
  have h7: "saveSucceeds ?e SaveAttempts" by (simp add: exampleEnv_def)
  have h8: "5 = getConsecutivePinFailures
       (fst (verifyPINAndCompletePayment defaultConfig ?e ''pay_1'' (Some ''000000'')
               fourPinFailures)) (acc_id exampleAccount)"
    by (simp add: example_defs handler_defs ledger_defs config_defs Let_def)
  have small: "outbox fourPinFailures = []" "maxPinFailuresBeforeAlert defaultConfig = Num 2"
    "maxPinFailuresBeforeRevoke defaultConfig = Num 5" "acc_id exampleAccount = ''acc_1''"
    "req_id exampleRequest = ''pay_1''" "acc_credentialId exampleAccount = Some ''cred_1''"
    "emailConfigured ?e" "alertEmailSucceeds ?e" "\<not> revokeSucceeds ?e"
    by (simp_all add: example_defs ledger_defs config_defs Let_def)
  have h1: "''pay_1'' \<noteq> []" "''000000'' \<noteq> []" by simp_all
  from C6_security_response_on_wrong_pin[OF h1 h3 h4 h5 h6 h7 h8]
  have "snd (verifyPINAndCompletePayment defaultConfig ?e ''pay_1'' (Some ''000000'')
               fourPinFailures) = Failure 400 ''Invalid PIN. Please check and try again.''
      \<and> outbox (fst (verifyPINAndCompletePayment defaultConfig ?e ''pay_1'' (Some ''000000'')
               fourPinFailures))
          = [SecurityAlert ''acc_1'' ''pay_1'' 5 Sent, RevokeCredential ''cred_1'' False,
             RevokeFailureLogged ''cred_1'']"
    by (simp add: small js_ge_def ofCount_def)
  with h3 h5 h8[symmetric] show ?thesis by (simp only: simp_thms)
qed

text \<open>
  C9: when the claims of the accepted proof lack the last four digits, the handler
  answers 400 and leaves the state as it found it: no \<open>failed_invalid_credential\<close> row is
  appended. The neighbouring branch, claims that match no account, does append that row
  (and leaves the request in \<open>processing\<close>).
\<close>

theorem C9_missing_claims_not_recorded:
  "verifyPINAndCompletePayment defaultConfig claimsMissingEnv ''pay_1'' (Some ''123456'')
       exampleState
     = (exampleState, Failure 400 ''Required credential data not found'')
   \<and> snd (verifyPINAndCompletePayment defaultConfig unknownHolderEnv ''pay_1'' (Some ''123456'')
            exampleState) = Failure 400 ''Account not found for provided credentials''
   \<and> map att_status (payments (fst (verifyPINAndCompletePayment defaultConfig unknownHolderEnv
        ''pay_1'' (Some ''123456'') exampleState))) = [''failed_invalid_credential'']
   \<and> map req_status (paymentRequests (fst (verifyPINAndCompletePayment defaultConfig
        unknownHolderEnv ''pay_1'' (Some ''123456'') exampleState))) = [''processing'']"
  by (simp add: example_defs handler_defs ledger_defs Let_def)

section \<open>Requests that the handlers leave alone\<close>

lemma record_other:
  "recordPaymentAttempt e d s = (s1, x) \<Longrightarrow> getPaymentRequestById s1 q = getPaymentRequestById s q"
  using record_frame[of e d s] by (intro getById_cong) simp

lemma update_other:
  "updatePaymentRequestStatus e site pid st ad s = (s1, x) \<Longrightarrow> pid \<noteq> q \<Longrightarrow>
     getPaymentRequestById s1 q = getPaymentRequestById s q"
  using update_other_request[of pid q e site st ad s] by simp

lemma balance_other:
  "updateAccountBalance e a b t s = (s1, x) \<Longrightarrow> getPaymentRequestById s1 q = getPaymentRequestById s q"
  using balance_frame[of e a b t s] by (intro getById_cong) simp

lemma resolve_other:
  "resolveAccount e pid pr s = (s1, x) \<Longrightarrow> getPaymentRequestById s1 q = getPaymentRequestById s q"
  using resolveAccount_frame[of e pid pr s] by (intro getById_cong) simp

lemma security_other:
  "getPaymentRequestById (securityResponse cfg e a r s) q = getPaymentRequestById s q"
  by (intro getById_cong) (simp add: security_frame)

lemma completePayment_other:
  assumes "completePayment e pid pr a s = (s1, x)" and "pid \<noteq> q"
  shows "getPaymentRequestById s1 q = getPaymentRequestById s q"
  using assms
  by (auto simp add: completePayment_def Let_def split: prod.splits sum.splits
           dest!: record_other[where q=q] update_other[where q=q] balance_other[where q=q])

lemma afterCheck_other:
  assumes "verifyPIN_afterCheck cfg e pid p pr s = (s1, x)" and "pid \<noteq> q"
  shows "getPaymentRequestById s1 q = getPaymentRequestById s q"
  using assms
  by (auto simp add: verifyPIN_afterCheck_def security_other split: prod.splits sum.splits if_splits
           dest!: record_other[where q=q] update_other[where q=q] resolve_other[where q=q]
                  completePayment_other[where q=q])

lemma verifyPIN_other:
  assumes "pid \<noteq> q"
  shows "getPaymentRequestById (fst (verifyPINAndCompletePayment cfg e pid pin s)) q
           = getPaymentRequestById s q"
  using assms
  by (auto simp add: verifyPINAndCompletePayment_def verifyPIN_checks_def verifyPIN_resume_def
        verifyPIN_catch_def
        split: prod.splits sum.splits option.splits checked.splits if_splits
        dest!: record_other[where q=q] afterCheck_other[where q=q])

lemma getPaymentStatus_proof_other:
  assumes "getPaymentStatus_proof e pid pr s = (s1, x)" and "pid \<noteq> q"
  shows "getPaymentRequestById s1 q = getPaymentRequestById s q"
  using assms update_other_request[of pid q e SaveRequests]
  by (auto simp add: getPaymentStatus_proof_def split: sum.splits if_splits)

lemma getPaymentStatus_other:
  assumes "pid \<noteq> q"
  shows "getPaymentRequestById (fst (getPaymentStatus e pid s)) q = getPaymentRequestById s q"
  using assms
  by (auto simp add: getPaymentStatus_def Let_def
        split: prod.splits sum.splits option.splits if_splits
        dest!: record_other[where q=q] update_other[where q=q]
               getPaymentStatus_proof_other[where q=q])

lemma processPayment_other:
  assumes "pid \<noteq> q"
  shows "getPaymentRequestById (fst (processPayment e pid s)) q = getPaymentRequestById s q"
  using assms
  by (auto simp add: processPayment_def
        split: prod.splits sum.splits option.splits if_splits
        dest!: record_other[where q=q] update_other[where q=q])

lemma liveRequest_found:
  "getPaymentRequestById s pid = Some r \<Longrightarrow> liveRequest s r = r"
  using getById_id[of s pid r] by (simp add: liveRequest_def)

lemma getPaymentStatus_not_pending:
  assumes "getPaymentRequestById s pid = Some r" and "req_status r \<noteq> ''pending''"
  shows "\<exists>proofState. getPaymentStatus e pid s = (s, StatusOk r proofState)"
  using assms liveRequest_found[OF assms(1)]
  by (simp add: getPaymentStatus_def getPaymentStatus_proof_def split: sum.splits)

lemma processPayment_terminal:
  assumes "getPaymentRequestById s pid = Some r" and "terminal (req_status r)"
  shows "processPayment e pid s =
           (s, Failure 400 (''Payment request is '' @ req_status r @ '' and cannot be processed''))"
  using assms by (auto simp add: processPayment_def terminal_def)

lemma record_result:
  "recordPaymentAttempt e d s = (s1, x) \<Longrightarrow>
     paymentRequests s1 = paymentRequests s \<and> accounts s1 = accounts s \<and> outbox s1 = outbox s"
  using record_frame[of e d s] by simp

lemma verifyPIN_not_processing:
  assumes "getPaymentRequestById s pid = Some r" and "req_status r \<noteq> ''processing''"
  shows "paymentRequests (fst (verifyPINAndCompletePayment cfg e pid pin s)) = paymentRequests s
       \<and> accounts (fst (verifyPINAndCompletePayment cfg e pid pin s)) = accounts s
       \<and> outbox (fst (verifyPINAndCompletePayment cfg e pid pin s)) = outbox s
       \<and> (\<exists>code msg. snd (verifyPINAndCompletePayment cfg e pid pin s) = Failure code msg)"
  using assms
  by (auto simp add: verifyPINAndCompletePayment_def verifyPIN_checks_def verifyPIN_catch_def
        split: option.splits prod.splits sum.splits dest!: record_result)

lemma terminal_not_live: "terminal st \<Longrightarrow> st \<noteq> ''pending'' \<and> st \<noteq> ''processing''"
  by (auto simp add: terminal_def)

lemma handle_keeps_terminal:
  assumes r: "getPaymentRequestById s q = Some r" and t: "terminal (req_status r)"
  shows "getPaymentRequestById (fst (handle cfg c s)) q = Some r"
proof (cases c)
  case (GetPaymentStatus e pid)
  show ?thesis
  proof (cases "pid = q")
    case True
    with getPaymentStatus_not_pending[of s q r e] r terminal_not_live[OF t]
    show ?thesis using GetPaymentStatus by auto
  next
    case False
    then show ?thesis using GetPaymentStatus getPaymentStatus_other[of pid q e s] r by simp
  qed
next
  case (ProcessPayment e pid)
  show ?thesis
  proof (cases "pid = q")
    case True
    with processPayment_terminal[OF r t, of e] r show ?thesis using ProcessPayment by simp
  next
    case False
    then show ?thesis using ProcessPayment processPayment_other[of pid q e s] r by simp
  qed
next
  case (VerifyPIN e pid pin)
  show ?thesis
  proof (cases "pid = q")
    case True
    have "paymentRequests (fst (verifyPINAndCompletePayment cfg e q pin s)) = paymentRequests s"
      using verifyPIN_not_processing[OF r, of cfg e pin] terminal_not_live[OF t] by simp
    then have "getPaymentRequestById (fst (verifyPINAndCompletePayment cfg e q pin s)) q
                 = getPaymentRequestById s q"
      by (rule getById_cong)
    then show ?thesis using VerifyPIN True r by simp
  next
    case False
    then show ?thesis using VerifyPIN verifyPIN_other[of pid q cfg e pin s] r by simp
  qed
qed

lemma serve_Cons:
  "fst (serve cfg (c # cs) s) = fst (serve cfg cs (fst (handle cfg c s)))"
  "snd (serve cfg (c # cs) s) = snd (handle cfg c s) # snd (serve cfg cs (fst (handle cfg c s)))"
  by (simp_all split: prod.splits)

lemma serve_keeps_terminal:
  "getPaymentRequestById s q = Some r \<Longrightarrow> terminal (req_status r) \<Longrightarrow>
   getPaymentRequestById (fst (serve cfg cs s)) q = Some r"
proof (induction cs arbitrary: s)
  case Nil
  then show ?case by simp
next
  case (Cons c cs)
  from handle_keeps_terminal[OF Cons.prems, of cfg c]
  have "getPaymentRequestById (fst (handle cfg c s)) q = Some r" .
  from Cons.IH[OF this Cons.prems(2)] show ?case
    by (simp only: serve_Cons)
qed

lemma find_map_keeps_id:
  assumes "\<And>x. req_id (f x) = req_id x"
  shows "find (\<lambda>x. req_id x = q) (map f xs) = map_option f (find (\<lambda>x. req_id x = q) xs)"
  using assms by (induction xs) auto

lemma expireOld_keeps_terminal:
  assumes r: "getPaymentRequestById s q = Some r" and t: "terminal (req_status r)"
  shows "getPaymentRequestById (fst (expireOldPaymentRequests e s)) q = Some r"
proof -
  let ?f = "\<lambda>req. if req_status req = ''pending'' \<and> req_expiresAt req \<le> now e
                   then req\<lparr>req_status := ''expired'', req_updatedAt := now e\<rparr> else req"
  have "find (\<lambda>x. req_id x = q) (map ?f (paymentRequests s))
          = map_option ?f (find (\<lambda>x. req_id x = q) (paymentRequests s))"
    by (rule find_map_keeps_id) simp
  also have "\<dots> = Some r"
    using r terminal_not_live[OF t] by (simp add: getPaymentRequestById_def getAllPaymentRequests_def)
  finally show ?thesis
    using r
    by (simp add: expireOldPaymentRequests_def Let_def getPaymentRequestById_def
                  getAllPaymentRequests_def)
qed

section \<open>Completions\<close>

lemma update_result:
  "updatePaymentRequestStatus e site pid st ad s = (s1, x) \<Longrightarrow>
     payments s1 = payments s \<and> accounts s1 = accounts s \<and> outbox s1 = outbox s"
  using update_frame[of e site pid st ad s] by simp

lemma balance_result:
  "updateAccountBalance e a b t s = (s1, x) \<Longrightarrow>
     paymentRequests s1 = paymentRequests s \<and> payments s1 = payments s \<and> outbox s1 = outbox s
     \<and> s1 = fst (updateAccountBalance e a b t s)"
  using balance_frame[of e a b t s] by simp

lemma resolveAccount_Inl:
  "resolveAccount e pid pr s = (s1, Inl r) \<Longrightarrow> \<exists>code msg. r = Failure code msg"
  by (auto simp add: resolveAccount_def
        split: sum.splits list.splits option.splits prod.splits if_splits)

lemma updateAccountBalance_Inr:
  assumes "updateAccountBalance e aid b t s = (s1, Inr acct)"
  shows "\<exists>i. findIndex (\<lambda>x. acc_id x = aid) (accounts s) = Some i
           \<and> accounts s1 = (accounts s)[i := (accounts s ! i)
                  \<lparr>acc_balance := b,
                   acc_lastBalanceUpdate := Some (acc_balance (accounts s ! i), b, t, now e)\<rparr>]"
  using assms
  by (auto simp add: updateAccountBalance_def getAllAccounts_def Let_def
        split: option.splits if_splits)

lemma findIndex_distinct:
  assumes "findIndex (\<lambda>x. f x = f a) xs = Some i" and "a \<in> set xs" and "distinct (map f xs)"
  shows "xs ! i = a"
proof -
  from findIndex_Some[OF assms(1)] have i: "i < length xs" "f (xs ! i) = f a" by simp_all
  from assms(2) obtain j where j: "j < length xs" "xs ! j = a" by (auto simp add: in_set_conv_nth)
  have "i = j" using nth_eq_iff_index_eq[OF assms(3), of i j] i j by simp
  with j(2) show ?thesis by simp
qed

lemma completePayment_completion:
  assumes "completePayment e pid pr a s = (s1, Inr resp)"
  shows "\<exists>c r1 i. resp = PaymentCompleted c \<and> cmp_paymentId c = pid
           \<and> cmp_amount c = req_amount pr
           \<and> cmp_previousBalance c = acc_balance a
           \<and> cmp_currentBalance c = js_sub (acc_balance a) (req_amount pr)
           \<and> getPaymentRequestById s1 pid = Some r1 \<and> req_status r1 = ''completed''
           \<and> findIndex (\<lambda>x. acc_id x = acc_id a) (accounts s) = Some i
           \<and> accounts s1 = (accounts s)[i := (accounts s ! i)
                  \<lparr>acc_balance := js_sub (acc_balance a) (req_amount pr),
                   acc_lastBalanceUpdate :=
                     Some (acc_balance (accounts s ! i), js_sub (acc_balance a) (req_amount pr),
                           ''Payment via PIN verification - Payment ID: '' @ pid, now e)\<rparr>]"
proof -
  define descr where "descr = ''Payment via PIN verification - Payment ID: '' @ pid"
  define d where "d = (withAccount a (attemptFor pid pr ''completed''))
                      \<lparr>pd_transactionId := Some (now e),
                       pd_previousBalance := Some (acc_balance a),
                       pd_newBalance := Some (js_sub (acc_balance a) (req_amount pr))\<rparr>"
  obtain sa xa where b: "updateAccountBalance e (acc_id a) (js_sub (acc_balance a) (req_amount pr)) descr s
                           = (sa, xa)"
    by (cases "updateAccountBalance e (acc_id a) (js_sub (acc_balance a) (req_amount pr)) descr s") blast
  obtain sb xb where rc: "recordPaymentAttempt e d sa = (sb, xb)"
    by (cases "recordPaymentAttempt e d sa") blast
  have unf: "completePayment e pid pr a s =
     (case xa of Inl err \<Rightarrow> (sa, Inl err)
      | Inr _ \<Rightarrow>
         (case xb of Inl err \<Rightarrow> (sb, Inl err)
          | Inr completedPayment \<Rightarrow>
             (case updatePaymentRequestStatus e SaveRequests pid ''completed''
                     [(''completedAt'', JTime (now e)),
                      (''transactionId'', JStr (att_id completedPayment)),
                      (''accountId'', JStr (acc_id a)),
                      (''cardholderName'', JStr (acc_cardholderName a)),
                      (''pinVerifiedAt'', JTime (now e))] sb of
                (s3, Inl err) \<Rightarrow> (s3, Inl err)
              | (s3, Inr _) \<Rightarrow>
                 (s3, Inr (PaymentCompleted
                    \<lparr>cmp_paymentId = pid,
                     cmp_transactionId = att_id completedPayment,
                     cmp_amount = req_amount pr,
                     cmp_merchantId = req_merchantId pr,
                     cmp_description = req_description pr,
                     cmp_cardholderName = acc_cardholderName a,
                     cmp_timestamp = att_timestamp completedPayment,
                     cmp_previousBalance = acc_balance a,
                     cmp_currentBalance = js_sub (acc_balance a) (req_amount pr)\<rparr>)))))"
    using b rc unfolding completePayment_def Let_def descr_def[symmetric] d_def[symmetric]
    by (simp split: sum.splits)
  from assms unf obtain acct where xa: "xa = Inr acct" by (cases xa) auto
  from assms unf xa obtain row where xb: "xb = Inr row" by (cases xb) auto
  obtain sc xc where up: "updatePaymentRequestStatus e SaveRequests pid ''completed''
                     [(''completedAt'', JTime (now e)),
                      (''transactionId'', JStr (att_id row)),
                      (''accountId'', JStr (acc_id a)),
                      (''cardholderName'', JStr (acc_cardholderName a)),
                      (''pinVerifiedAt'', JTime (now e))] sb = (sc, xc)"
    by (metis surj_pair)
  from assms unf xa xb up obtain r1 where xc: "xc = Inr r1" by (cases xc) auto
  from assms unf xa xb up xc have s1: "s1 = sc"
    and resp: "resp = PaymentCompleted
                    \<lparr>cmp_paymentId = pid,
                     cmp_transactionId = att_id row,
                     cmp_amount = req_amount pr,
                     cmp_merchantId = req_merchantId pr,
                     cmp_description = req_description pr,
                     cmp_cardholderName = acc_cardholderName a,
                     cmp_timestamp = att_timestamp row,
                     cmp_previousBalance = acc_balance a,
                     cmp_currentBalance = js_sub (acc_balance a) (req_amount pr)\<rparr>"
    by auto
  from update_Inr[OF up[unfolded xc]] have r1: "getPaymentRequestById sc pid = Some r1"
    "req_status r1 = ''completed''" by auto
  have "accounts sc = accounts sb" using update_result[OF up] by simp
  also have "\<dots> = accounts sa" using record_result[OF rc] by simp
  finally have acc: "accounts sc = accounts sa" .
  from updateAccountBalance_Inr[OF b[unfolded xa]] obtain i where
    i: "findIndex (\<lambda>x. acc_id x = acc_id a) (accounts s) = Some i"
       "accounts sa = (accounts s)[i := (accounts s ! i)
                  \<lparr>acc_balance := js_sub (acc_balance a) (req_amount pr),
                   acc_lastBalanceUpdate :=
                     Some (acc_balance (accounts s ! i), js_sub (acc_balance a) (req_amount pr),
                           descr, now e)\<rparr>]"
    by blast
  from r1 s1 resp i acc show ?thesis unfolding descr_def by simp
qed

lemma afterCheck_completion:
  assumes "verifyPIN_afterCheck cfg e pid p pr s = (s1, Inr (PaymentCompleted c))"
  shows "\<exists>a. resolveAccount e pid pr s = (s, Inr a) \<and> p = acc_pin a
           \<and> \<not> js_lt (acc_balance a) (req_amount pr)
           \<and> completePayment e pid pr a s = (s1, Inr (PaymentCompleted c))"
  using assms
  by (auto simp add: verifyPIN_afterCheck_def split: prod.splits sum.splits if_splits
        dest!: resolveAccount_Inl dest: resolveAccount_Inr)

lemma verifyPIN_completion:
  assumes "verifyPINAndCompletePayment cfg e pid pin s = (s1, PaymentCompleted c)"
  shows "\<exists>p pr a. pin = Some p \<and> getPaymentRequestById s pid = Some pr
           \<and> req_status pr = ''processing''
           \<and> resolveAccount e pid pr s = (s, Inr a) \<and> p = acc_pin a
           \<and> \<not> js_lt (acc_balance a) (req_amount pr)
           \<and> completePayment e pid pr a s = (s1, Inr (PaymentCompleted c))"
  using assms
  by (auto simp add: verifyPINAndCompletePayment_def verifyPIN_checks_def verifyPIN_resume_def
        verifyPIN_catch_def
        split: prod.splits sum.splits option.splits if_splits checked.splits
        dest!: afterCheck_completion)

lemma getPaymentStatus_no_completion: "snd (getPaymentStatus e pid s) \<noteq> PaymentCompleted c"
  by (auto simp add: getPaymentStatus_def Let_def split: option.splits prod.splits sum.splits)

lemma processPayment_no_completion: "snd (processPayment e pid s) \<noteq> PaymentCompleted c"
  by (auto simp add: processPayment_def split: option.splits prod.splits sum.splits)

lemma handle_completion:
  assumes "isCompletionOf q (snd (handle cfg c s))"
  shows "(\<exists>pr. getPaymentRequestById s q = Some pr \<and> req_status pr = ''processing'')
       \<and> (\<exists>r1. getPaymentRequestById (fst (handle cfg c s)) q = Some r1
                \<and> req_status r1 = ''completed'')"
proof (cases c)
  case (GetPaymentStatus e pid)
  then show ?thesis using assms getPaymentStatus_no_completion[of e pid s]
    by (auto simp add: isCompletionOf_def split: response.splits)
next
  case (ProcessPayment e pid)
  then show ?thesis using assms processPayment_no_completion[of e pid s]
    by (auto simp add: isCompletionOf_def split: response.splits)
next
  case (VerifyPIN e pid pin)
  from assms VerifyPIN obtain cm where
    cm: "snd (verifyPINAndCompletePayment cfg e pid pin s) = PaymentCompleted cm"
      "cmp_paymentId cm = q"
    by (auto simp add: isCompletionOf_def split: response.splits)
  then have v: "verifyPINAndCompletePayment cfg e pid pin s
                  = (fst (verifyPINAndCompletePayment cfg e pid pin s), PaymentCompleted cm)"
    by (metis prod.collapse)
  from verifyPIN_completion[OF v] obtain pr a where
    pr: "getPaymentRequestById s pid = Some pr" "req_status pr = ''processing''"
    and cp: "completePayment e pid pr a s
               = (fst (verifyPINAndCompletePayment cfg e pid pin s), Inr (PaymentCompleted cm))"
    by blast
  from completePayment_completion[OF cp] cm(2) have "pid = q" by auto
  with completePayment_completion[OF cp] pr show ?thesis using VerifyPIN by auto
qed

lemma no_completion_when_terminal:
  assumes "getPaymentRequestById s q = Some r" and "terminal (req_status r)"
  shows "filter (isCompletionOf q) (snd (serve cfg cs s)) = []"
  using assms
proof (induction cs arbitrary: s)
  case Nil
  then show ?case by simp
next
  case (Cons c cs)
  have "\<not> isCompletionOf q (snd (handle cfg c s))"
    using handle_completion[of q cfg c s] Cons.prems terminal_not_live by auto
  moreover have "filter (isCompletionOf q) (snd (serve cfg cs (fst (handle cfg c s)))) = []"
    using Cons.IH[OF handle_keeps_terminal[OF Cons.prems, of cfg c] Cons.prems(2)] .
  ultimately show ?case by (simp only: serve_Cons) simp
qed

lemma at_most_one_completion:
  "length (filter (isCompletionOf q) (snd (serve cfg cs s))) \<le> 1"
proof (induction cs arbitrary: s)
  case Nil
  then show ?case by simp
next
  case (Cons c cs)
  show ?case
  proof (cases "isCompletionOf q (snd (handle cfg c s))")
    case True
    from handle_completion[OF True] obtain r1 where
      g: "getPaymentRequestById (fst (handle cfg c s)) q = Some r1"
      and st: "req_status r1 = ''completed''"
      by blast
    have "terminal (req_status r1)" unfolding st by (simp add: terminal_def)
    with g have "filter (isCompletionOf q) (snd (serve cfg cs (fst (handle cfg c s)))) = []"
      by (rule no_completion_when_terminal)
    with True show ?thesis by (simp only: serve_Cons) simp
  next
    case False
    with Cons.IH[of "fst (handle cfg c s)"] show ?thesis by (simp only: serve_Cons) simp
  qed
qed

section \<open>Debits\<close>

lemma resolveAccount_member:
  assumes "resolveAccount e pid pr s = (s1, Inr a)"
  shows "a \<in> set (accounts s)"
proof -
  have "snd (resolveAccount e pid pr s) = Inr a \<longrightarrow> a \<in> set (accounts s)"
    by (auto simp add: resolveAccount_def findAccountByCredentialData_def getAllAccounts_def
          find_Some_iff in_set_conv_nth
          split: sum.splits list.splits option.splits prod.splits)
  with assms show ?thesis by simp
qed

lemma updateAccountBalance_member:
  assumes "a \<in> set (accounts s)" and "saveSucceeds e SaveAccounts"
  shows "\<exists>acct. snd (updateAccountBalance e (acc_id a) b t s) = Inr acct"
proof -
  have "find (\<lambda>x. acc_id x = acc_id a) (accounts s) \<noteq> None"
    using assms(1) by (auto simp add: find_None_iff)
  then obtain i where "findIndex (\<lambda>x. acc_id x = acc_id a) (accounts s) = Some i"
    using findIndex_None[of "\<lambda>x. acc_id x = acc_id a" "accounts s"] by (cases "findIndex (\<lambda>x. acc_id x = acc_id a) (accounts s)") auto
  then show ?thesis using assms(2)
    by (simp add: updateAccountBalance_def getAllAccounts_def Let_def)
qed

lemma completePayment_succeeds:
  assumes saves: "\<forall>site. saveSucceeds e site"
    and a: "a \<in> set (accounts s)"
    and pr: "getPaymentRequestById s pid = Some pr0" and pid: "pid \<noteq> []"
  shows "\<exists>c. snd (completePayment e pid pr a s) = Inr (PaymentCompleted c)"
proof -
  define descr where "descr = ''Payment via PIN verification - Payment ID: '' @ pid"
  define d where "d = (withAccount a (attemptFor pid pr ''completed''))
                      \<lparr>pd_transactionId := Some (now e),
                       pd_previousBalance := Some (acc_balance a),
                       pd_newBalance := Some (js_sub (acc_balance a) (req_amount pr))\<rparr>"
  obtain sa xa where b: "updateAccountBalance e (acc_id a) (js_sub (acc_balance a) (req_amount pr)) descr s
                           = (sa, xa)"
    by (metis surj_pair)
  from updateAccountBalance_member[OF a, of e "js_sub (acc_balance a) (req_amount pr)" descr] saves b
  obtain acct where xa: "xa = Inr acct" by auto
  have d1: "pd_paymentRequestId d = Some pid" "pd_status d = Some ''completed''"
    by (simp_all add: d_def withAccount_def attemptFor_def noData_def)
  have "''completed'' \<in> set validAttemptStatuses" by (simp add: validAttemptStatuses_def)
  from recordPaymentAttempt_appends[OF d1(1) pid d1(2) this, of e sa] saves
  obtain row where rc: "recordPaymentAttempt e d sa = (sa\<lparr>payments := payments sa @ [row]\<rparr>, Inr row)"
    by auto
  let ?sb = "sa\<lparr>payments := payments sa @ [row]\<rparr>"
  have "sa = fst (updateAccountBalance e (acc_id a) (js_sub (acc_balance a) (req_amount pr)) descr s)"
    using b by simp
  then have "paymentRequests ?sb = paymentRequests s" by (simp add: balance_frame)
  then have g: "getPaymentRequestById ?sb pid = Some pr0"
    using pr getById_cong[of ?sb s pid] by simp
  have v: "''completed'' \<in> set validStatuses" by (simp add: validStatuses_def)
  let ?ad = "[(''completedAt'', JTime (now e)),
                      (''transactionId'', JStr (att_id row)),
                      (''accountId'', JStr (acc_id a)),
                      (''cardholderName'', JStr (acc_cardholderName a)),
                      (''pinVerifiedAt'', JTime (now e))]"
  from update_this_request[OF g v, of e SaveRequests ?ad] saves
  obtain r1 where "snd (updatePaymentRequestStatus e SaveRequests pid ''completed'' ?ad ?sb) = Inr r1"
    by auto
  then obtain sc where up: "updatePaymentRequestStatus e SaveRequests pid ''completed'' ?ad ?sb = (sc, Inr r1)"
    by (metis prod.collapse)
  show ?thesis
    using b xa rc up
    unfolding completePayment_def Let_def descr_def[symmetric] d_def[symmetric]
    by simp
qed

lemma afterCheck_accounts:
  assumes saves: "\<forall>site. saveSucceeds e site"
    and pr: "getPaymentRequestById s pid = Some pr0" and pid: "pid \<noteq> []"
    and nc: "\<forall>c. snd (verifyPIN_afterCheck cfg e pid p pr s) \<noteq> Inr (PaymentCompleted c)"
  shows "accounts (fst (verifyPIN_afterCheck cfg e pid p pr s)) = accounts s"
proof (cases "resolveAccount e pid pr s")
  case (Pair s1 x)
  show ?thesis
  proof (cases x)
    case (Inl resp)
    then show ?thesis using Pair resolveAccount_frame[of e pid pr s]
      by (simp add: verifyPIN_afterCheck_def)
  next
    case (Inr a)
    from resolveAccount_Inr[OF Pair[unfolded Inr]] have s1: "s1 = s" by simp
    from resolveAccount_member[OF Pair[unfolded Inr]] have mem: "a \<in> set (accounts s)" .
    from completePayment_succeeds[OF saves mem pr pid, of pr] obtain c where
      c: "snd (completePayment e pid pr a s) = Inr (PaymentCompleted c)" by blast
    have "p \<noteq> acc_pin a \<or> js_lt (acc_balance a) (req_amount pr)"
    proof (rule ccontr)
      assume "\<not> (p \<noteq> acc_pin a \<or> js_lt (acc_balance a) (req_amount pr))"
      then have "verifyPIN_afterCheck cfg e pid p pr s = completePayment e pid pr a s"
        using Pair Inr s1 by (simp add: verifyPIN_afterCheck_def)
      with nc c show False by simp
    qed
    then show ?thesis
      using Pair Inr s1
      by (auto simp add: verifyPIN_afterCheck_def security_frame
            split: prod.splits sum.splits dest!: record_result update_result)
  qed
qed

lemma verifyPIN_accounts:
  assumes saves: "\<forall>site. saveSucceeds e site"
    and nc: "\<forall>c. snd (verifyPINAndCompletePayment cfg e pid pin s) \<noteq> PaymentCompleted c"
  shows "accounts (fst (verifyPINAndCompletePayment cfg e pid pin s)) = accounts s"
proof (cases "verifyPIN_checks e pid pin s")
  case (Pair s1 x)
  show ?thesis
  proof (cases x)
    case (Thrown err)
    then show ?thesis using Pair
      by (auto simp add: verifyPINAndCompletePayment_def verifyPIN_catch_def verifyPIN_checks_def
            split: option.splits if_splits prod.splits sum.splits dest!: record_result)
  next
    case (Responded r)
    then show ?thesis using Pair
      by (auto simp add: verifyPINAndCompletePayment_def verifyPIN_checks_def
            split: option.splits if_splits prod.splits sum.splits dest!: record_result)
  next
    case (Proceed p pr)
    with Pair have s1: "s1 = s" and pid: "pid \<noteq> []" and g: "getPaymentRequestById s pid = Some pr"
      by (auto simp add: verifyPIN_checks_def split: option.splits if_splits prod.splits sum.splits)
    have v: "verifyPINAndCompletePayment cfg e pid pin s = verifyPIN_resume cfg e pid p pr s"
      using Pair Proceed s1 by (simp add: verifyPINAndCompletePayment_def)
    have "\<forall>c. snd (verifyPIN_afterCheck cfg e pid p pr s) \<noteq> Inr (PaymentCompleted c)"
      using nc unfolding v
      by (auto simp add: verifyPIN_resume_def split: prod.splits sum.splits)
    from afterCheck_accounts[OF saves g pid this]
    show ?thesis unfolding v
      by (auto simp add: verifyPIN_resume_def verifyPIN_catch_def split: prod.splits sum.splits)
  qed
qed

lemma getPaymentStatus_accounts: "accounts (fst (getPaymentStatus e pid s)) = accounts s"
  by (auto simp add: getPaymentStatus_def getPaymentStatus_proof_def Let_def update_frame
        split: option.splits prod.splits sum.splits dest!: record_result update_result)

lemma processPayment_accounts: "accounts (fst (processPayment e pid s)) = accounts s"
  by (auto simp add: processPayment_def
        split: option.splits prod.splits sum.splits dest!: record_result update_result)

text \<open>
  C1, as the specification states it, fails: nothing in the code serialises two
  submissions for one request. Both submissions below pass the status check while the
  request is in \<open>processing\<close> and wait for the verifier. The first is resumed and
  completes the payment (balance 100 to 70). The second is resumed afterwards; it does not
  read the status again, finds the balance sufficient and debits once more (70 to 40):
  two successful verifications and two \<open>completed\<close> rows for one request.
\<close>

theorem C1_two_submissions_counterexample:
  "verifyPIN_checks exampleEnv ''pay_1'' (Some ''123456'') exampleState
     = (exampleState, Proceed ''123456'' exampleRequest)
   \<and> verifyPIN_checks secondEnv ''pay_1'' (Some ''123456'') exampleState
     = (exampleState, Proceed ''123456'' exampleRequest)
   \<and> isCompletionOf ''pay_1'' (snd firstResumed)
   \<and> isCompletionOf ''pay_1'' (snd secondResumed)
   \<and> map acc_balance (accounts exampleState) = [Num 100]
   \<and> map acc_balance (accounts (fst firstResumed)) = [Num 70]
   \<and> map acc_balance (accounts (fst secondResumed)) = [Num 40]
   \<and> map att_status (payments (fst secondResumed)) = [''completed'', ''completed'']
   \<and> map req_status (paymentRequests (fst secondResumed)) = [''completed'']"
  by (simp add: example_defs handler_defs ledger_defs config_defs isCompletionOf_def Let_def)

text \<open>
  C1, amended: when the calls are handled one at a time, each to its end before the next
  starts, at most one of them is a successful PIN verification of a given request,
  whatever the calls and the state they start from. A successful verification finds the
  request in \<open>processing\<close> and the balance of the resolved account not below the amount,
  leaves the request \<open>completed\<close>, and changes exactly one account: the first one that
  carries the identifier of the resolved account, which is the resolved account itself when
  the identifiers are distinct. Its balance becomes the balance of the resolved account
  minus the amount of the request, in double arithmetic (\<open>js_sub\<close>; lemma \<open>js_sub_int\<close>
  gives the exact difference for integers up to \<open>2 ^ 53\<close>, lemma \<open>cents_are_rounded\<close> a
  difference that is rounded). A call of \<^verbatim>\<open>verifyPINAndCompletePayment\<close> whose writes all
  succeed and which is not a successful verification leaves the accounts unchanged; the
  other two handlers never change them.
\<close>

theorem C1_one_completion_when_served_in_turn:
  "length (filter (isCompletionOf paymentId) (snd (serve cfg calls s))) \<le> 1
   \<and> (verifyPINAndCompletePayment cfg e paymentId pin s = (s', PaymentCompleted c) \<longrightarrow>
        (\<exists>paymentRequest account r' i.
            getPaymentRequestById s paymentId = Some paymentRequest
          \<and> req_status paymentRequest = ''processing''
          \<and> resolveAccount e paymentId paymentRequest s = (s, Inr account)
          \<and> account \<in> set (accounts s)
          \<and> \<not> js_lt (acc_balance account) (req_amount paymentRequest)
          \<and> findIndex (\<lambda>x. acc_id x = acc_id account) (accounts s) = Some i
          \<and> accounts s' = (accounts s)[i := (accounts s ! i)
                \<lparr>acc_balance := js_sub (acc_balance account) (req_amount paymentRequest),
                 acc_lastBalanceUpdate :=
                   Some (acc_balance (accounts s ! i),
                         js_sub (acc_balance account) (req_amount paymentRequest),
                         ''Payment via PIN verification - Payment ID: '' @ paymentId, now e)\<rparr>]
          \<and> (distinct (map acc_id (accounts s)) \<longrightarrow> accounts s ! i = account)
          \<and> cmp_paymentId c = paymentId
          \<and> cmp_amount c = req_amount paymentRequest
          \<and> cmp_previousBalance c = acc_balance account
          \<and> cmp_currentBalance c = js_sub (acc_balance account) (req_amount paymentRequest)
          \<and> getPaymentRequestById s' paymentId = Some r' \<and> req_status r' = ''completed''))
   \<and> ((\<forall>site. saveSucceeds e site)
        \<and> (\<forall>c. snd (verifyPINAndCompletePayment cfg e paymentId pin s) \<noteq> PaymentCompleted c) \<longrightarrow>
        accounts (fst (verifyPINAndCompletePayment cfg e paymentId pin s)) = accounts s)
   \<and> accounts (fst (getPaymentStatus e paymentId s)) = accounts s
   \<and> accounts (fst (processPayment e paymentId s)) = accounts s"
proof (intro conjI impI)
  show "length (filter (isCompletionOf paymentId) (snd (serve cfg calls s))) \<le> 1"
    by (rule at_most_one_completion)
next
  assume v: "verifyPINAndCompletePayment cfg e paymentId pin s = (s', PaymentCompleted c)"
  from verifyPIN_completion[OF v] obtain pr a where
    pr: "getPaymentRequestById s paymentId = Some pr" "req_status pr = ''processing''"
    and ra: "resolveAccount e paymentId pr s = (s, Inr a)"
    and enough: "\<not> js_lt (acc_balance a) (req_amount pr)"
    and cp: "completePayment e paymentId pr a s = (s', Inr (PaymentCompleted c))"
    by blast
  from resolveAccount_member[OF ra] have mem: "a \<in> set (accounts s)" .
  from completePayment_completion[OF cp] obtain r1 i where
    r1: "cmp_paymentId c = paymentId" "cmp_amount c = req_amount pr"
      "cmp_previousBalance c = acc_balance a"
      "cmp_currentBalance c = js_sub (acc_balance a) (req_amount pr)"
      "getPaymentRequestById s' paymentId = Some r1" "req_status r1 = ''completed''"
    and i: "findIndex (\<lambda>x. acc_id x = acc_id a) (accounts s) = Some i"
      "accounts s' = (accounts s)[i := (accounts s ! i)
                \<lparr>acc_balance := js_sub (acc_balance a) (req_amount pr),
                 acc_lastBalanceUpdate :=
                   Some (acc_balance (accounts s ! i), js_sub (acc_balance a) (req_amount pr),
                         ''Payment via PIN verification - Payment ID: '' @ paymentId, now e)\<rparr>]"
    by auto
  have same: "distinct (map acc_id (accounts s)) \<longrightarrow> accounts s ! i = a"
    using findIndex_distinct[OF i(1) mem] by blast
  show "\<exists>paymentRequest account r' i.
            getPaymentRequestById s paymentId = Some paymentRequest
          \<and> req_status paymentRequest = ''processing''
          \<and> resolveAccount e paymentId paymentRequest s = (s, Inr account)
          \<and> account \<in> set (accounts s)
          \<and> \<not> js_lt (acc_balance account) (req_amount paymentRequest)
          \<and> findIndex (\<lambda>x. acc_id x = acc_id account) (accounts s) = Some i
          \<and> accounts s' = (accounts s)[i := (accounts s ! i)
                \<lparr>acc_balance := js_sub (acc_balance account) (req_amount paymentRequest),
                 acc_lastBalanceUpdate :=
                   Some (acc_balance (accounts s ! i),
                         js_sub (acc_balance account) (req_amount paymentRequest),
                         ''Payment via PIN verification - Payment ID: '' @ paymentId, now e)\<rparr>]
          \<and> (distinct (map acc_id (accounts s)) \<longrightarrow> accounts s ! i = account)
          \<and> cmp_paymentId c = paymentId
          \<and> cmp_amount c = req_amount paymentRequest
          \<and> cmp_previousBalance c = acc_balance account
          \<and> cmp_currentBalance c = js_sub (acc_balance account) (req_amount paymentRequest)
          \<and> getPaymentRequestById s' paymentId = Some r' \<and> req_status r' = ''completed''"
    using pr ra mem enough i same r1
    by (intro exI[of _ pr] exI[of _ a] exI[of _ r1] exI[of _ i]) (simp only: simp_thms)
next
  assume "(\<forall>site. saveSucceeds e site)
        \<and> (\<forall>c. snd (verifyPINAndCompletePayment cfg e paymentId pin s) \<noteq> PaymentCompleted c)"
  then show "accounts (fst (verifyPINAndCompletePayment cfg e paymentId pin s)) = accounts s"
    using verifyPIN_accounts[of e cfg paymentId pin s] by blast
next
  show "accounts (fst (getPaymentStatus e paymentId s)) = accounts s"
    by (rule getPaymentStatus_accounts)
next
  show "accounts (fst (processPayment e paymentId s)) = accounts s"
    by (rule processPayment_accounts)
qed

theorem C1_served_in_turn_witness:
  "snd (serve defaultConfig
          [VerifyPIN exampleEnv ''pay_1'' (Some ''123456''),
           VerifyPIN secondEnv ''pay_1'' (Some ''123456'')] exampleState)
     = [PaymentCompleted
          \<lparr>cmp_paymentId = ''pay_1'', cmp_transactionId = ''pay_2'', cmp_amount = Num 30,
           cmp_merchantId = ''m1'', cmp_description = ''coffee'', cmp_cardholderName = ''Alice'',
           cmp_timestamp = 2000, cmp_previousBalance = Num 100, cmp_currentBalance = Num 70\<rparr>,
        Failure 400 ''Payment request is not ready for PIN verification'']
   \<and> length (filter (isCompletionOf ''pay_1'')
        (snd (serve defaultConfig
          [VerifyPIN exampleEnv ''pay_1'' (Some ''123456''),
           VerifyPIN secondEnv ''pay_1'' (Some ''123456'')] exampleState))) \<le> 1
   \<and> map acc_balance (accounts (fst (serve defaultConfig
          [VerifyPIN exampleEnv ''pay_1'' (Some ''123456''),
           VerifyPIN secondEnv ''pay_1'' (Some ''123456'')] exampleState))) = [Num 70]
   \<and> accounts (fst (verifyPINAndCompletePayment defaultConfig exampleEnv ''pay_1''
                       (Some ''123456'') exampleState))
       = [exampleAccount
            \<lparr>acc_balance := Num 70,
             acc_lastBalanceUpdate :=
               Some (Num 100, Num 70,
                     ''Payment via PIN verification - Payment ID: pay_1'', 2000)\<rparr>]
   \<and> (\<exists>r'. getPaymentRequestById
               (fst (verifyPINAndCompletePayment defaultConfig exampleEnv ''pay_1''
                       (Some ''123456'') exampleState)) ''pay_1'' = Some r'
             \<and> req_status r' = ''completed'')
   \<and> snd (verifyPINAndCompletePayment defaultConfig secondEnv ''pay_1'' (Some ''000000'')
            exampleState) = Failure 400 ''Invalid PIN. Please check and try again.''
   \<and> accounts (fst (verifyPINAndCompletePayment defaultConfig secondEnv ''pay_1''
          (Some ''000000'') exampleState)) = accounts exampleState"
proof -
  let ?calls = "[VerifyPIN exampleEnv ''pay_1'' (Some ''123456''),
                 VerifyPIN secondEnv ''pay_1'' (Some ''123456'')]"
  let ?c = "\<lparr>cmp_paymentId = ''pay_1'', cmp_transactionId = ''pay_2'', cmp_amount = Num 30,
           cmp_merchantId = ''m1'', cmp_description = ''coffee'', cmp_cardholderName = ''Alice'',
           cmp_timestamp = 2000, cmp_previousBalance = Num 100, cmp_currentBalance = Num 70\<rparr>"
  let ?V = "verifyPINAndCompletePayment defaultConfig exampleEnv ''pay_1'' (Some ''123456'')
              exampleState"
  let ?W = "verifyPINAndCompletePayment defaultConfig secondEnv ''pay_1'' (Some ''000000'')
              exampleState"
  have run: "snd (serve defaultConfig ?calls exampleState)
               = [PaymentCompleted ?c,
                  Failure 400 ''Payment request is not ready for PIN verification'']"
    "map acc_balance (accounts (fst (serve defaultConfig ?calls exampleState))) = [Num 70]"
    by (simp_all add: example_defs handler_defs ledger_defs config_defs Let_def)
  have "snd ?V = PaymentCompleted ?c"
    by (simp add: example_defs handler_defs ledger_defs config_defs Let_def)
  then have v: "?V = (fst ?V, PaymentCompleted ?c)" by (metis prod.collapse)
  have w: "snd ?W = Failure 400 ''Invalid PIN. Please check and try again.''"
    by (simp add: example_defs handler_defs ledger_defs config_defs Let_def)
  have saves: "\<forall>site. saveSucceeds secondEnv site" by (simp add: example_defs)
  note thm1 = C1_one_completion_when_served_in_turn
                [of "''pay_1''" defaultConfig ?calls exampleState exampleEnv "Some ''123456''"
                    "fst ?V" ?c]
  note thm2 = C1_one_completion_when_served_in_turn
                [of "''pay_1''" defaultConfig "[]" exampleState secondEnv "Some ''000000''"]
  from thm1 have one: "length (filter (isCompletionOf ''pay_1'')
                         (snd (serve defaultConfig ?calls exampleState))) \<le> 1"
    by (rule conjunct1)
  from thm1 v have finished: "\<exists>r'. getPaymentRequestById (fst ?V) ''pay_1'' = Some r'
                              \<and> req_status r' = ''completed''"
    by blast
  from thm1 v obtain pr a i where
    d: "getPaymentRequestById exampleState ''pay_1'' = Some pr"
       "resolveAccount exampleEnv ''pay_1'' pr exampleState = (exampleState, Inr a)"
       "findIndex (\<lambda>x. acc_id x = acc_id a) (accounts exampleState) = Some i"
       "accounts (fst ?V) = (accounts exampleState)[i := (accounts exampleState ! i)
                \<lparr>acc_balance := js_sub (acc_balance a) (req_amount pr),
                 acc_lastBalanceUpdate :=
                   Some (acc_balance (accounts exampleState ! i),
                         js_sub (acc_balance a) (req_amount pr),
                         ''Payment via PIN verification - Payment ID: '' @ ''pay_1'',
                         now exampleEnv)\<rparr>]"
    by blast
  have pr: "pr = exampleRequest"
    using d(1) by (simp add: example_defs getPaymentRequestById_def getAllPaymentRequests_def)
  have a: "a = exampleAccount"
    using d(2) unfolding pr by (simp add: example_defs handler_defs)
  have i: "i = 0"
    using d(3) unfolding a by (simp add: example_defs)
  have debit: "accounts (fst ?V)
       = [exampleAccount
            \<lparr>acc_balance := Num 70,
             acc_lastBalanceUpdate :=
               Some (Num 100, Num 70,
                     ''Payment via PIN verification - Payment ID: pay_1'', 2000)\<rparr>]"
    unfolding d(4) pr a i by (simp add: example_defs)
  from thm2 saves w have kept: "accounts (fst ?W) = accounts exampleState"
    by simp
  from run one debit finished w kept show ?thesis by (simp only: simp_thms)
qed

section \<open>The arrows of the status\<close>

lemma requestStatus_cong:
  "paymentRequests s1 = paymentRequests s \<Longrightarrow> requestStatus s1 q = requestStatus s q"
  by (simp add: requestStatus_def getPaymentRequestById_def getAllPaymentRequests_def)

lemma update_status:
  assumes "updatePaymentRequestStatus e site pid st ad s = (s1, x)"
    and "st \<in> set validStatuses"
  shows "requestStatus s1 q =
           (if pid = q \<and> requestStatus s q \<noteq> None then Some st else requestStatus s q)"
proof (cases "pid = q")
  case False
  then show ?thesis using update_other_request[of pid q e site st ad s] assms(1)
    by (simp add: requestStatus_def)
next
  case True
  show ?thesis
  proof (cases "getPaymentRequestById s q")
    case None
    then have "findIndex (\<lambda>req. req_id req = q) (paymentRequests s) = None"
      by (simp add: findIndex_None getPaymentRequestById_def getAllPaymentRequests_def)
    then have "s1 = s" using assms(1) True
      by (simp add: updatePaymentRequestStatus_def getAllPaymentRequests_def)
    then show ?thesis using None by (simp add: requestStatus_def)
  next
    case (Some r)
    from update_this_request[OF Some assms(2), of e site ad] assms(1) True Some
    show ?thesis by (simp add: requestStatus_def)
  qed
qed

lemma record_status:
  "recordPaymentAttempt e d s = (s1, x) \<Longrightarrow> requestStatus s1 q = requestStatus s q"
  using record_frame[of e d s] by (intro requestStatus_cong) simp

lemma balance_status:
  "updateAccountBalance e a b t s = (s1, x) \<Longrightarrow> requestStatus s1 q = requestStatus s q"
  using balance_frame[of e a b t s] by (intro requestStatus_cong) simp

lemma resolve_status:
  "resolveAccount e pid pr s = (s1, x) \<Longrightarrow> requestStatus s1 q = requestStatus s q"
  using resolveAccount_frame[of e pid pr s] by (intro requestStatus_cong) simp

lemma security_status:
  "requestStatus (securityResponse cfg e a r s) q = requestStatus s q"
  by (intro requestStatus_cong) (simp add: security_frame)

lemma valid_literals:
  "''expired'' \<in> set validStatuses" "''processing'' \<in> set validStatuses"
  "''failed'' \<in> set validStatuses" "''completed'' \<in> set validStatuses"
  by (simp_all add: validStatuses_def)

lemma completePayment_status:
  assumes "completePayment e pid pr a s = (s1, x)"
  shows "requestStatus s1 q = requestStatus s q
       \<or> (pid = q \<and> requestStatus s q \<noteq> None \<and> requestStatus s1 q = Some ''completed'')"
  using assms
  by (auto simp add: completePayment_def Let_def split: prod.splits sum.splits
        dest!: record_status[where q=q] balance_status[where q=q]
               update_status[where q=q, OF _ valid_literals(4)]
        split: if_splits)

lemma afterCheck_status:
  assumes "verifyPIN_afterCheck cfg e pid p pr s = (s1, x)"
  shows "requestStatus s1 q = requestStatus s q
       \<or> (pid = q \<and> requestStatus s q \<noteq> None
           \<and> requestStatus s1 q \<in> set [Some ''completed'', Some ''failed''])"
  using assms
  by (auto simp add: verifyPIN_afterCheck_def security_status
        split: prod.splits sum.splits if_splits
        dest!: record_status[where q=q] resolve_status[where q=q]
               update_status[where q=q, OF _ valid_literals(3)]
               completePayment_status[where q=q])

lemma requestStatus_found:
  "getPaymentRequestById s pid = Some r \<Longrightarrow> requestStatus s pid = Some (req_status r)"
  by (simp add: requestStatus_def)

lemma verifyPIN_status:
  "requestStatus (fst (verifyPINAndCompletePayment cfg e pid pin s)) q = requestStatus s q
   \<or> (pid = q \<and> requestStatus s q = Some ''processing''
       \<and> requestStatus (fst (verifyPINAndCompletePayment cfg e pid pin s)) q
            \<in> set [Some ''completed'', Some ''failed''])"
  by (auto simp add: verifyPINAndCompletePayment_def verifyPIN_checks_def verifyPIN_resume_def
        verifyPIN_catch_def
        split: prod.splits sum.splits option.splits if_splits checked.splits
        dest!: record_status[where q=q] afterCheck_status[where q=q]
        dest: requestStatus_found)

lemma processPayment_status:
  "requestStatus (fst (processPayment e pid s)) q = requestStatus s q
   \<or> (pid = q \<and> requestStatus s q \<in> set [Some ''pending'', Some ''processing'']
       \<and> requestStatus (fst (processPayment e pid s)) q
            \<in> set [Some ''processing'', Some ''expired''])"
  by (auto simp add: processPayment_def
        split: prod.splits sum.splits option.splits if_splits
        dest!: record_status[where q=q] update_status[where q=q, OF _ valid_literals(1)]
               update_status[where q=q, OF _ valid_literals(2)]
        dest: requestStatus_found)

lemma liveRequest_status:
  "getPaymentRequestById s pid = Some pr \<Longrightarrow>
     requestStatus s1 pid = Some st \<Longrightarrow> req_status (liveRequest s1 pr) = st"
  using getById_id[of s pid pr]
  by (auto simp add: liveRequest_def requestStatus_def split: option.splits)

lemma getPaymentStatus_proof_status:
  assumes "getPaymentStatus_proof e pid pr s = (s1, x)"
  shows "requestStatus s1 q = requestStatus s q
       \<or> (pid = q \<and> requestStatus s q \<noteq> None \<and> req_status (liveRequest s pr) = ''pending''
           \<and> requestStatus s1 q = Some ''processing'')"
  using assms update_status[where q=q, OF _ valid_literals(2), of e SaveRequests pid _ s]
  by (auto simp add: getPaymentStatus_proof_def split: sum.splits if_splits)
     (metis prod.collapse)+


lemma getPaymentStatus_status:
  "requestStatus (fst (getPaymentStatus e pid s)) q = requestStatus s q
   \<or> (pid = q \<and> requestStatus s q = Some ''pending''
       \<and> requestStatus (fst (getPaymentStatus e pid s)) q
            \<in> set [Some ''processing'', Some ''expired''])"
proof (cases "getPaymentRequestById s pid")
  case None
  then show ?thesis by (simp add: getPaymentStatus_def)
next
  case (Some pr)
  note found = requestStatus_found[OF Some]
  show ?thesis
  proof (cases "req_status pr = ''pending'' \<and> req_expiresAt pr \<le> now e")
    case False
    obtain s1 x where p: "getPaymentStatus_proof e pid pr s = (s1, x)" by (metis surj_pair)
    have g: "fst (getPaymentStatus e pid s) = s1"
      using Some False p by (auto simp add: getPaymentStatus_def)
    from getPaymentStatus_proof_status[OF p, of q] liveRequest_found[OF Some] found
    show ?thesis unfolding g by auto
  next
    case True
    obtain s1 x where u: "updatePaymentRequestStatus e SaveRequests pid ''expired'' [] s = (s1, x)"
      by (metis surj_pair)
    note st1 = update_status[OF u valid_literals(1)]
    show ?thesis
    proof (cases x)
      case (Inl err)
      then have g: "fst (getPaymentStatus e pid s) = s1"
        using Some True u by (simp add: getPaymentStatus_def)
      show ?thesis unfolding g using st1[of q] found True by auto
    next
      case (Inr r1)
      obtain s2 y where rc: "recordPaymentAttempt e (expiredAttempt pid pr ''Payment request expired'') s1
                               = (s2, y)" by (metis surj_pair)
      note st2 = record_status[OF rc]
      show ?thesis
      proof (cases y)
        case (Inl err)
        then have g: "fst (getPaymentStatus e pid s) = s2"
          using Some True u Inr rc by (simp add: getPaymentStatus_def)
        show ?thesis unfolding g using st1[of q] st2[of q] found True by auto
      next
        case (Inr row)
        obtain s3 z where p: "getPaymentStatus_proof e pid pr s2 = (s3, z)" by (metis surj_pair)
        have g: "fst (getPaymentStatus e pid s) = s3"
          using Some True u \<open>x = Inr r1\<close> rc Inr p by (simp add: getPaymentStatus_def)
        have "requestStatus s2 pid = Some ''expired''"
          using st1[of pid] st2[of pid] found by simp
        from liveRequest_status[OF Some this]
        have "req_status (liveRequest s2 pr) \<noteq> ''pending''" by simp
        with getPaymentStatus_proof_status[OF p, of q]
        have "requestStatus s3 q = requestStatus s2 q" by auto
        then show ?thesis unfolding g using st1[of q] st2[of q] found True by auto
      qed
    qed
  qed
qed

lemma transition_literals:
  "transition ''pending'' ''processing''" "transition ''pending'' ''expired''"
  "transition ''processing'' ''processing''" "transition ''processing'' ''completed''"
  "transition ''processing'' ''failed''" "transition ''processing'' ''expired''"
  by (simp_all add: transition_def)

lemma handle_transition:
  assumes "requestStatus s q = Some old"
  shows "requestStatus (fst (handle cfg c s)) q = Some old
       \<or> (\<exists>new. requestStatus (fst (handle cfg c s)) q = Some new \<and> transition old new)"
proof (cases c)
  case (GetPaymentStatus e pid)
  from getPaymentStatus_status[of e pid s q] show ?thesis
  proof
    assume "requestStatus (fst (getPaymentStatus e pid s)) q = requestStatus s q"
    then show ?thesis using GetPaymentStatus assms by simp
  next
    assume a: "pid = q \<and> requestStatus s q = Some ''pending''
       \<and> requestStatus (fst (getPaymentStatus e pid s)) q
            \<in> set [Some ''processing'', Some ''expired'']"
    with assms have old: "old = ''pending''" by auto
    from a have "requestStatus (fst (getPaymentStatus e pid s)) q = Some ''processing''
               \<or> requestStatus (fst (getPaymentStatus e pid s)) q = Some ''expired''" by auto
    then show ?thesis unfolding old using GetPaymentStatus transition_literals(1,2) by auto
  qed
next
  case (ProcessPayment e pid)
  from processPayment_status[of e pid s q] show ?thesis
  proof
    assume "requestStatus (fst (processPayment e pid s)) q = requestStatus s q"
    then show ?thesis using ProcessPayment assms by simp
  next
    assume a: "pid = q \<and> requestStatus s q \<in> set [Some ''pending'', Some ''processing'']
       \<and> requestStatus (fst (processPayment e pid s)) q
            \<in> set [Some ''processing'', Some ''expired'']"
    with assms have old: "old = ''pending'' \<or> old = ''processing''" by auto
    from a have "requestStatus (fst (processPayment e pid s)) q = Some ''processing''
               \<or> requestStatus (fst (processPayment e pid s)) q = Some ''expired''" by auto
    with old show ?thesis using ProcessPayment transition_literals(1,2,3,6) by auto
  qed
next
  case (VerifyPIN e pid pin)
  from verifyPIN_status[of cfg e pid pin s q] show ?thesis
  proof
    assume "requestStatus (fst (verifyPINAndCompletePayment cfg e pid pin s)) q = requestStatus s q"
    then show ?thesis using VerifyPIN assms by simp
  next
    assume a: "pid = q \<and> requestStatus s q = Some ''processing''
       \<and> requestStatus (fst (verifyPINAndCompletePayment cfg e pid pin s)) q
            \<in> set [Some ''completed'', Some ''failed'']"
    with assms have old: "old = ''processing''" by auto
    from a have "requestStatus (fst (verifyPINAndCompletePayment cfg e pid pin s)) q = Some ''completed''
               \<or> requestStatus (fst (verifyPINAndCompletePayment cfg e pid pin s)) q = Some ''failed''"
      by auto
    then show ?thesis unfolding old using VerifyPIN transition_literals(4,5) by auto
  qed
qed

section \<open>Terminal states\<close>

text \<open>
  C2, as the specification states it, fails: \<^verbatim>\<open>updatePaymentRequestStatus\<close> checks only
  that the new status is one of the six names. Called for a \<open>completed\<close> request it sets
  the status back to \<open>processing\<close> and returns the changed request.
\<close>

theorem C2_update_of_completed_counterexample:
  "getPaymentRequestById completedState ''pay_1''
     = Some (exampleRequest\<lparr>req_status := ''completed''\<rparr>)
   \<and> terminal ''completed''
   \<and> updatePaymentRequestStatus exampleEnv SaveRequests ''pay_1'' ''processing'' [] completedState
      = (exampleState\<lparr>paymentRequests := [exampleRequest\<lparr>req_updatedAt := 2000\<rparr>]\<rparr>,
         Inr (exampleRequest\<lparr>req_updatedAt := 2000\<rparr>))"
  by (simp add: example_defs handler_defs terminal_def Let_def)

text \<open>
  C2, amended: the guard is in the handlers, not in the service. Every call of
  \<^verbatim>\<open>getPaymentStatus\<close>, \<^verbatim>\<open>processPayment\<close> and \<^verbatim>\<open>verifyPINAndCompletePayment\<close>, run to its
  end, leaves the status of every request as it is or moves it along one arrow of
  \<open>pending \<rightarrow> processing\<close>, \<open>pending \<rightarrow> expired\<close>, \<open>processing \<rightarrow> completed\<close>,
  \<open>processing \<rightarrow> failed\<close>, \<open>processing \<rightarrow> expired\<close>. A request in a terminal state
  (\<open>completed\<close>, \<open>failed\<close>, \<open>expired\<close>, \<open>cancelled\<close>) is left exactly as it is by every such
  call, for this or for another request, by every sequence of such calls handled one at a
  time, and by the periodic expiry sweep. \<^verbatim>\<open>processPayment\<close> called for it answers 400 and
  changes nothing at all; \<^verbatim>\<open>verifyPINAndCompletePayment\<close> called for it answers with a
  failure and changes no request and no account.
\<close>

theorem C2_status_moves_forward_in_handlers:
  "(requestStatus s paymentId = Some old \<longrightarrow>
      requestStatus (fst (handle cfg c s)) paymentId = Some old
      \<or> (\<exists>new. requestStatus (fst (handle cfg c s)) paymentId = Some new \<and> transition old new))
   \<and> (getPaymentRequestById s paymentId = Some r \<and> terminal (req_status r) \<longrightarrow>
        getPaymentRequestById (fst (handle cfg c s)) paymentId = Some r
      \<and> getPaymentRequestById (fst (serve cfg calls s)) paymentId = Some r
      \<and> getPaymentRequestById (fst (expireOldPaymentRequests e s)) paymentId = Some r
      \<and> processPayment e paymentId s
          = (s, Failure 400 (''Payment request is '' @ req_status r @ '' and cannot be processed''))
      \<and> (\<exists>code message.
            snd (verifyPINAndCompletePayment cfg e paymentId pin s) = Failure code message)
      \<and> paymentRequests (fst (verifyPINAndCompletePayment cfg e paymentId pin s))
          = paymentRequests s
      \<and> accounts (fst (verifyPINAndCompletePayment cfg e paymentId pin s)) = accounts s)"
proof (rule conjI)
  show "requestStatus s paymentId = Some old \<longrightarrow>
      requestStatus (fst (handle cfg c s)) paymentId = Some old
      \<or> (\<exists>new. requestStatus (fst (handle cfg c s)) paymentId = Some new \<and> transition old new)"
    using handle_transition[of s paymentId old cfg c] by blast
next
  show "getPaymentRequestById s paymentId = Some r \<and> terminal (req_status r) \<longrightarrow>
        getPaymentRequestById (fst (handle cfg c s)) paymentId = Some r
      \<and> getPaymentRequestById (fst (serve cfg calls s)) paymentId = Some r
      \<and> getPaymentRequestById (fst (expireOldPaymentRequests e s)) paymentId = Some r
      \<and> processPayment e paymentId s
          = (s, Failure 400 (''Payment request is '' @ req_status r @ '' and cannot be processed''))
      \<and> (\<exists>code message.
            snd (verifyPINAndCompletePayment cfg e paymentId pin s) = Failure code message)
      \<and> paymentRequests (fst (verifyPINAndCompletePayment cfg e paymentId pin s))
          = paymentRequests s
      \<and> accounts (fst (verifyPINAndCompletePayment cfg e paymentId pin s)) = accounts s"
  proof (rule impI)
    assume a: "getPaymentRequestById s paymentId = Some r \<and> terminal (req_status r)"
    then have r: "getPaymentRequestById s paymentId = Some r" and t: "terminal (req_status r)"
      by simp_all
    show "getPaymentRequestById (fst (handle cfg c s)) paymentId = Some r
      \<and> getPaymentRequestById (fst (serve cfg calls s)) paymentId = Some r
      \<and> getPaymentRequestById (fst (expireOldPaymentRequests e s)) paymentId = Some r
      \<and> processPayment e paymentId s
          = (s, Failure 400 (''Payment request is '' @ req_status r @ '' and cannot be processed''))
      \<and> (\<exists>code message.
            snd (verifyPINAndCompletePayment cfg e paymentId pin s) = Failure code message)
      \<and> paymentRequests (fst (verifyPINAndCompletePayment cfg e paymentId pin s))
          = paymentRequests s
      \<and> accounts (fst (verifyPINAndCompletePayment cfg e paymentId pin s)) = accounts s"
      using handle_keeps_terminal[OF r t, of cfg c] serve_keeps_terminal[OF r t, of cfg calls]
        expireOld_keeps_terminal[OF r t, of e] processPayment_terminal[OF r t, of e]
        verifyPIN_not_processing[OF r, of cfg e pin] terminal_not_live[OF t]
      by simp
  qed
qed

theorem C2_terminal_requests_witness:
  "getPaymentRequestById completedState ''pay_1''
     = Some (exampleRequest\<lparr>req_status := ''completed''\<rparr>)
   \<and> terminal (req_status (exampleRequest\<lparr>req_status := ''completed''\<rparr>))
   \<and> getPaymentRequestById (fst (serve defaultConfig
        [VerifyPIN exampleEnv ''pay_1'' (Some ''123456''), ProcessPayment exampleEnv ''pay_1'',
         GetPaymentStatus lateEnv ''pay_1''] completedState)) ''pay_1''
     = Some (exampleRequest\<lparr>req_status := ''completed''\<rparr>)
   \<and> snd (serve defaultConfig
        [VerifyPIN exampleEnv ''pay_1'' (Some ''123456''), ProcessPayment exampleEnv ''pay_1'',
         GetPaymentStatus lateEnv ''pay_1''] completedState)
     = [Failure 400 ''Payment request is not ready for PIN verification'',
        Failure 400 ''Payment request is completed and cannot be processed'',
        StatusOk (exampleRequest\<lparr>req_status := ''completed''\<rparr>) (Some ''ACCEPTED'')]
   \<and> requestStatus exampleState ''pay_1'' = Some ''processing''
   \<and> requestStatus (fst (handle defaultConfig (VerifyPIN exampleEnv ''pay_1'' (Some ''123456''))
                           exampleState)) ''pay_1'' = Some ''completed''
   \<and> transition ''processing'' ''completed''"
proof -
  let ?calls = "[VerifyPIN exampleEnv ''pay_1'' (Some ''123456''),
                 ProcessPayment exampleEnv ''pay_1'', GetPaymentStatus lateEnv ''pay_1'']"
  let ?r = "exampleRequest\<lparr>req_status := ''completed''\<rparr>"
  have h1: "getPaymentRequestById completedState ''pay_1'' = Some ?r"
    by (simp add: example_defs getPaymentRequestById_def getAllPaymentRequests_def)
  have h2: "terminal (req_status ?r)" by (simp add: terminal_def)
  have run: "snd (serve defaultConfig ?calls completedState)
     = [Failure 400 ''Payment request is not ready for PIN verification'',
        Failure 400 ''Payment request is completed and cannot be processed'',
        StatusOk ?r (Some ''ACCEPTED'')]"
    by (simp add: example_defs handler_defs ledger_defs Let_def)
  have h3: "requestStatus exampleState ''pay_1'' = Some ''processing''"
    by (simp add: requestStatus_def example_defs getPaymentRequestById_def
                  getAllPaymentRequests_def)
  have ev: "requestStatus (fst (handle defaultConfig
              (VerifyPIN exampleEnv ''pay_1'' (Some ''123456'')) exampleState)) ''pay_1''
              = Some ''completed''"
    by (simp add: requestStatus_def example_defs handler_defs ledger_defs Let_def)
  from C2_status_moves_forward_in_handlers
         [of completedState "''pay_1''" _ defaultConfig _ ?r ?calls exampleEnv "Some ''123456''"]
       h1 h2
  have kept: "getPaymentRequestById (fst (serve defaultConfig ?calls completedState)) ''pay_1''
                = Some ?r"
    by blast
  from C2_status_moves_forward_in_handlers
         [of exampleState "''pay_1''" "''processing''" defaultConfig
             "VerifyPIN exampleEnv ''pay_1'' (Some ''123456'')"] h3 ev
  have "transition ''processing'' ''completed''" by auto
  with h1 h2 kept run h3 ev show ?thesis by (simp only: simp_thms)
qed

section \<open>Expiry\<close>

lemma expire_and_record:
  assumes pid: "pid \<noteq> []" and pr: "getPaymentRequestById s pid = Some pr"
    and sr: "saveSucceeds e SaveRequests" and sa: "saveSucceeds e SaveAttempts"
    and reason: "reason \<noteq> []"
  shows "\<exists>s1 r1 row.
           updatePaymentRequestStatus e SaveRequests pid ''expired'' [] s = (s1, Inr r1)
         \<and> recordPaymentAttempt e (expiredAttempt pid pr reason) s1
             = (s1\<lparr>payments := payments s @ [row]\<rparr>, Inr row)
         \<and> getPaymentRequestById s1 pid
             = Some (pr\<lparr>req_status := ''expired'', req_updatedAt := now e\<rparr>)
         \<and> accounts s1 = accounts s \<and> outbox s1 = outbox s
         \<and> att_status row = ''failed_expired'' \<and> att_paymentRequestId row = pid
         \<and> att_errorReason row = Some reason
         \<and> att_errorDetails row = Some (RequestExpiredAt (req_expiresAt pr))"
proof -
  define s1 where "s1 = fst (updatePaymentRequestStatus e SaveRequests pid ''expired'' [] s)"
  let ?r1 = "pr\<lparr>req_status := ''expired'', req_updatedAt := now e\<rparr>"
  have v: "''expired'' \<in> set validStatuses" by (simp add: validStatuses_def)
  from update_this_request[OF pr v, of e SaveRequests "[]"] sr
  have g: "getPaymentRequestById s1 pid = Some ?r1"
    and u: "updatePaymentRequestStatus e SaveRequests pid ''expired'' [] s = (s1, Inr ?r1)"
    unfolding s1_def by (simp_all add: prod_eq_iff)
  have fr: "payments s1 = payments s" "accounts s1 = accounts s" "outbox s1 = outbox s"
    using update_result[OF u] by simp_all
  have d: "pd_paymentRequestId (expiredAttempt pid pr reason) = Some pid"
    "pd_status (expiredAttempt pid pr reason) = Some ''failed_expired''"
    "pd_errorReason (expiredAttempt pid pr reason) = Some reason"
    "pd_errorDetails (expiredAttempt pid pr reason) = Some (RequestExpiredAt (req_expiresAt pr))"
    by (simp_all add: expiredAttempt_def noData_def)
  have "''failed_expired'' \<in> set validAttemptStatuses" by (simp add: validAttemptStatuses_def)
  from recordPaymentAttempt_appends[OF d(1) pid d(2) this, of e s1] sa d(3,4) reason fr(1)
  obtain row where "recordPaymentAttempt e (expiredAttempt pid pr reason) s1
             = (s1\<lparr>payments := payments s @ [row]\<rparr>, Inr row)"
    "att_status row = ''failed_expired''" "att_paymentRequestId row = pid"
    "att_errorReason row = Some reason"
    "att_errorDetails row = Some (RequestExpiredAt (req_expiresAt pr))"
    by (auto simp add: or_null_def falsy_def)
  with u g fr show ?thesis by blast
qed

lemma proof_check_not_pending:
  "req_status (liveRequest s pr) \<noteq> ''pending'' \<Longrightarrow>
     \<exists>proofState. getPaymentStatus_proof e pid pr s = (s, proofState)"
  by (simp add: getPaymentStatus_proof_def split: sum.splits)

text \<open>
  C3, as the specification states it, fails twice on the example request, which is in
  \<open>processing\<close> and has expired when the clock of \<open>lateEnv\<close> is read.
  \<^verbatim>\<open>processPayment\<close> does check the expiry, and the status it sets is \<open>expired\<close>, not
  \<open>failed\<close>. \<^verbatim>\<open>verifyPINAndCompletePayment\<close> never reads \<^verbatim>\<open>expiresAt\<close>: with the right PIN
  it completes the expired request and debits the account. \<^verbatim>\<open>getPaymentStatus\<close> checks the
  expiry of \<open>pending\<close> requests only and reports this one as it is.
\<close>

theorem C3_expired_request_counterexample:
  "req_expiresAt exampleRequest < now lateEnv
   \<and> map req_status (paymentRequests (fst (processPayment lateEnv ''pay_1'' exampleState)))
       = [''expired'']
   \<and> isCompletionOf ''pay_1''
       (snd (verifyPINAndCompletePayment defaultConfig lateEnv ''pay_1'' (Some ''123456'')
               exampleState))
   \<and> map acc_balance (accounts (fst (verifyPINAndCompletePayment defaultConfig lateEnv ''pay_1''
        (Some ''123456'') exampleState))) = [Num 70]
   \<and> snd (getPaymentStatus lateEnv ''pay_1'' exampleState)
       = StatusOk exampleRequest (Some ''ACCEPTED'')"
  by (simp add: example_defs handler_defs ledger_defs config_defs isCompletionOf_def Let_def)

text \<open>
  C3, amended: \<^verbatim>\<open>processPayment\<close> reads \<^verbatim>\<open>expiresAt\<close> before it acts on a request in
  \<open>pending\<close> or \<open>processing\<close>, and \<^verbatim>\<open>getPaymentStatus\<close> before it reports a request in
  \<open>pending\<close>. When the expiry has been reached (and the two writes succeed) the request
  becomes \<open>expired\<close>, exactly one row is appended to the ledger, a \<open>failed_expired\<close> row of
  this request with the reason "Payment request expired during processing"
  (\<^verbatim>\<open>processPayment\<close>, which then answers 400) or "Payment request expired"
  (\<^verbatim>\<open>getPaymentStatus\<close>, which then reports the expired request), and no account changes.
\<close>

theorem C3_expiry_on_process_and_poll:
  assumes "paymentId \<noteq> []"
    and "getPaymentRequestById s paymentId = Some paymentRequest"
    and "req_expiresAt paymentRequest \<le> now e"
    and "saveSucceeds e SaveRequests" and "saveSucceeds e SaveAttempts"
  shows "(req_status paymentRequest \<in> set [''pending'', ''processing''] \<longrightarrow>
           (\<exists>row. snd (processPayment e paymentId s) = Failure 400 ''Payment request has expired''
              \<and> getPaymentRequestById (fst (processPayment e paymentId s)) paymentId
                  = Some (paymentRequest\<lparr>req_status := ''expired'', req_updatedAt := now e\<rparr>)
              \<and> payments (fst (processPayment e paymentId s)) = payments s @ [row]
              \<and> att_status row = ''failed_expired'' \<and> att_paymentRequestId row = paymentId
              \<and> att_errorReason row = Some ''Payment request expired during processing''
              \<and> att_errorDetails row = Some (RequestExpiredAt (req_expiresAt paymentRequest))
              \<and> accounts (fst (processPayment e paymentId s)) = accounts s))
       \<and> (req_status paymentRequest = ''pending'' \<longrightarrow>
           (\<exists>row proofState.
                snd (getPaymentStatus e paymentId s)
                  = StatusOk (paymentRequest\<lparr>req_status := ''expired'', req_updatedAt := now e\<rparr>)
                      proofState
              \<and> getPaymentRequestById (fst (getPaymentStatus e paymentId s)) paymentId
                  = Some (paymentRequest\<lparr>req_status := ''expired'', req_updatedAt := now e\<rparr>)
              \<and> payments (fst (getPaymentStatus e paymentId s)) = payments s @ [row]
              \<and> att_status row = ''failed_expired'' \<and> att_paymentRequestId row = paymentId
              \<and> att_errorReason row = Some ''Payment request expired''
              \<and> att_errorDetails row = Some (RequestExpiredAt (req_expiresAt paymentRequest))
              \<and> accounts (fst (getPaymentStatus e paymentId s)) = accounts s))"
proof (intro conjI impI)
  assume live: "req_status paymentRequest \<in> set [''pending'', ''processing'']"
  from expire_and_record[OF assms(1,2,4,5), of "''Payment request expired during processing''"]
  obtain s1 r1 row where
    u: "updatePaymentRequestStatus e SaveRequests paymentId ''expired'' [] s = (s1, Inr r1)"
    and rc: "recordPaymentAttempt e
               (expiredAttempt paymentId paymentRequest ''Payment request expired during processing'') s1
             = (s1\<lparr>payments := payments s @ [row]\<rparr>, Inr row)"
    and g: "getPaymentRequestById s1 paymentId
             = Some (paymentRequest\<lparr>req_status := ''expired'', req_updatedAt := now e\<rparr>)"
    and fr: "accounts s1 = accounts s"
    and row: "att_status row = ''failed_expired''" "att_paymentRequestId row = paymentId"
       "att_errorReason row = Some ''Payment request expired during processing''"
       "att_errorDetails row = Some (RequestExpiredAt (req_expiresAt paymentRequest))"
    by auto
  have "processPayment e paymentId s
          = (s1\<lparr>payments := payments s @ [row]\<rparr>, Failure 400 ''Payment request has expired'')"
    using assms(2,3) live u rc by (auto simp add: processPayment_def)
  moreover have "getPaymentRequestById (s1\<lparr>payments := payments s @ [row]\<rparr>) paymentId
                   = getPaymentRequestById s1 paymentId"
    by (rule getById_cong) simp
  ultimately show "\<exists>row. snd (processPayment e paymentId s) = Failure 400 ''Payment request has expired''
              \<and> getPaymentRequestById (fst (processPayment e paymentId s)) paymentId
                  = Some (paymentRequest\<lparr>req_status := ''expired'', req_updatedAt := now e\<rparr>)
              \<and> payments (fst (processPayment e paymentId s)) = payments s @ [row]
              \<and> att_status row = ''failed_expired'' \<and> att_paymentRequestId row = paymentId
              \<and> att_errorReason row = Some ''Payment request expired during processing''
              \<and> att_errorDetails row = Some (RequestExpiredAt (req_expiresAt paymentRequest))
              \<and> accounts (fst (processPayment e paymentId s)) = accounts s"
    using g fr row by (intro exI[of _ row]) simp
next
  assume pending: "req_status paymentRequest = ''pending''"
  from expire_and_record[OF assms(1,2,4,5), of "''Payment request expired''"]
  obtain s1 r1 row where
    u: "updatePaymentRequestStatus e SaveRequests paymentId ''expired'' [] s = (s1, Inr r1)"
    and rc: "recordPaymentAttempt e
               (expiredAttempt paymentId paymentRequest ''Payment request expired'') s1
             = (s1\<lparr>payments := payments s @ [row]\<rparr>, Inr row)"
    and g: "getPaymentRequestById s1 paymentId
             = Some (paymentRequest\<lparr>req_status := ''expired'', req_updatedAt := now e\<rparr>)"
    and fr: "accounts s1 = accounts s"
    and row: "att_status row = ''failed_expired''" "att_paymentRequestId row = paymentId"
       "att_errorReason row = Some ''Payment request expired''"
       "att_errorDetails row = Some (RequestExpiredAt (req_expiresAt paymentRequest))"
    by auto
  let ?s2 = "s1\<lparr>payments := payments s @ [row]\<rparr>"
  let ?r = "paymentRequest\<lparr>req_status := ''expired'', req_updatedAt := now e\<rparr>"
  have g2: "getPaymentRequestById ?s2 paymentId = Some ?r"
    using g getById_cong[of ?s2 s1 paymentId] by simp
  have rid: "req_id paymentRequest = paymentId" using getById_id[OF assms(2)] .
  have live: "liveRequest ?s2 paymentRequest = ?r"
    using g2 rid by (simp add: liveRequest_def)
  then obtain proofState where
    p: "getPaymentStatus_proof e paymentId paymentRequest ?s2 = (?s2, proofState)"
    using proof_check_not_pending[of ?s2 paymentRequest e paymentId] by auto
  have "getPaymentStatus e paymentId s = (?s2, StatusOk ?r (or_null proofState))"
    using assms(2,3) pending u rc p live by (simp add: getPaymentStatus_def)
  then show "\<exists>row proofState.
                snd (getPaymentStatus e paymentId s) = StatusOk ?r proofState
              \<and> getPaymentRequestById (fst (getPaymentStatus e paymentId s)) paymentId = Some ?r
              \<and> payments (fst (getPaymentStatus e paymentId s)) = payments s @ [row]
              \<and> att_status row = ''failed_expired'' \<and> att_paymentRequestId row = paymentId
              \<and> att_errorReason row = Some ''Payment request expired''
              \<and> att_errorDetails row = Some (RequestExpiredAt (req_expiresAt paymentRequest))
              \<and> accounts (fst (getPaymentStatus e paymentId s)) = accounts s"
    using g2 fr row by (intro exI[of _ row] exI[of _ "or_null proofState"]) simp
qed

theorem C3_expiry_witness:
  "getPaymentRequestById pendingState ''pay_1'' = Some (exampleRequest\<lparr>req_status := ''pending''\<rparr>)
   \<and> req_expiresAt (exampleRequest\<lparr>req_status := ''pending''\<rparr>) \<le> now lateEnv
   \<and> saveSucceeds lateEnv SaveRequests \<and> saveSucceeds lateEnv SaveAttempts
   \<and> snd (processPayment lateEnv ''pay_1'' pendingState) = Failure 400 ''Payment request has expired''
   \<and> getPaymentRequestById (fst (processPayment lateEnv ''pay_1'' pendingState)) ''pay_1''
       = Some (exampleRequest\<lparr>req_status := ''expired'', req_updatedAt := 2000000\<rparr>)
   \<and> map att_status (payments (fst (processPayment lateEnv ''pay_1'' pendingState)))
       = [''failed_expired'']
   \<and> map att_errorReason (payments (fst (processPayment lateEnv ''pay_1'' pendingState)))
       = [Some ''Payment request expired during processing'']
   \<and> getPaymentRequestById (fst (getPaymentStatus lateEnv ''pay_1'' pendingState)) ''pay_1''
       = Some (exampleRequest\<lparr>req_status := ''expired'', req_updatedAt := 2000000\<rparr>)
   \<and> map att_status (payments (fst (getPaymentStatus lateEnv ''pay_1'' pendingState)))
       = [''failed_expired'']
   \<and> map att_errorReason (payments (fst (getPaymentStatus lateEnv ''pay_1'' pendingState)))
       = [Some ''Payment request expired'']"
proof -
  let ?r = "exampleRequest\<lparr>req_status := ''pending''\<rparr>"
  have h2: "getPaymentRequestById pendingState ''pay_1'' = Some ?r"
    by (simp add: example_defs getPaymentRequestById_def getAllPaymentRequests_def)
  have h3: "req_expiresAt ?r \<le> now lateEnv" by (simp add: example_defs)
  have h4: "saveSucceeds lateEnv SaveRequests" "saveSucceeds lateEnv SaveAttempts"
    by (simp_all add: example_defs)
  have small: "req_status ?r = ''pending''" "payments pendingState = []"
    "now lateEnv = 2000000"
    "?r\<lparr>req_status := ''expired'', req_updatedAt := 2000000\<rparr>
       = exampleRequest\<lparr>req_status := ''expired'', req_updatedAt := 2000000\<rparr>"
    by (simp_all add: example_defs)
  have h1: "''pay_1'' \<noteq> []" by simp
  from C3_expiry_on_process_and_poll[OF h1 h2 h3 h4] small
  have "snd (processPayment lateEnv ''pay_1'' pendingState)
          = Failure 400 ''Payment request has expired''
   \<and> getPaymentRequestById (fst (processPayment lateEnv ''pay_1'' pendingState)) ''pay_1''
       = Some (exampleRequest\<lparr>req_status := ''expired'', req_updatedAt := 2000000\<rparr>)
   \<and> map att_status (payments (fst (processPayment lateEnv ''pay_1'' pendingState)))
       = [''failed_expired'']
   \<and> map att_errorReason (payments (fst (processPayment lateEnv ''pay_1'' pendingState)))
       = [Some ''Payment request expired during processing'']
   \<and> getPaymentRequestById (fst (getPaymentStatus lateEnv ''pay_1'' pendingState)) ''pay_1''
       = Some (exampleRequest\<lparr>req_status := ''expired'', req_updatedAt := 2000000\<rparr>)
   \<and> map att_status (payments (fst (getPaymentStatus lateEnv ''pay_1'' pendingState)))
       = [''failed_expired'']
   \<and> map att_errorReason (payments (fst (getPaymentStatus lateEnv ''pay_1'' pendingState)))
       = [Some ''Payment request expired'']"
    by auto
  with h2 h3 h4 show ?thesis by (simp only: simp_thms)
qed

end
